theory Spec2Isabelle
  imports Main
begin

section \<open>Python values, strings and dictionaries\<close>

text \<open>
  The program is \<^verbatim>\<open>src/apiwrappy.py\<close>. Values that travel through it (parsed JSON
  bodies, request parameters, the cells of an output record) are Python objects; they are
  modelled by one datatype. A Python \<^verbatim>\<open>dict\<close> keeps insertion order, so it is an
  association list whose keys are distinct; a \<^verbatim>\<open>float\<close> is never computed with by this
  program and is represented by its \<^verbatim>\<open>repr\<close> text. Strings are \<open>char list\<close>, read as
  ASCII text.
\<close>

datatype json =
    JNull
  | JBool bool
  | JInt int
  | JFloat string
  | JStr string
  | JList "json list"
  | JObj "(string \<times> json) list"

type_synonym pydict = "(string \<times> json) list"

datatype exn =
    RequestEngineError string
  | KeysParserError string
  | KeyError string
  | AttributeError
  | TypeError
  | ValueError
  | StopIteration
  | OverflowError

text \<open>Truthiness, as \<^verbatim>\<open>if x:\<close> and \<^verbatim>\<open>x and y\<close> test it.\<close>

fun truthy :: "json \<Rightarrow> bool" where
  "truthy JNull = False"
| "truthy (JBool b) = b"
| "truthy (JInt i) = (i \<noteq> 0)"
| "truthy (JFloat r) = (r \<noteq> ''0.0'' \<and> r \<noteq> ''-0.0'')"
| "truthy (JStr s) = (s \<noteq> [])"
| "truthy (JList xs) = (xs \<noteq> [])"
| "truthy (JObj kvs) = (kvs \<noteq> [])"

subsection \<open>String methods\<close>

definition is_space :: "char \<Rightarrow> bool" where
  "is_space c = (c \<in> set [CHR '' '', CHR 0x09, CHR 0x0A, CHR 0x0B, CHR 0x0C, CHR 0x0D,
                           CHR 0x1C, CHR 0x1D, CHR 0x1E, CHR 0x1F])"

definition lstrip_by :: "(char \<Rightarrow> bool) \<Rightarrow> string \<Rightarrow> string" where
  "lstrip_by P s = dropWhile P s"

definition strip_by :: "(char \<Rightarrow> bool) \<Rightarrow> string \<Rightarrow> string" where
  "strip_by P s = rev (dropWhile P (rev (dropWhile P s)))"

text \<open>\<^verbatim>\<open>s.strip()\<close> and \<^verbatim>\<open>s.strip(chars)\<close>.\<close>

definition strip :: "string \<Rightarrow> string" where
  "strip s = strip_by is_space s"

definition strip_chars :: "string \<Rightarrow> string \<Rightarrow> string" where
  "strip_chars cs s = strip_by (\<lambda>c. c \<in> set cs) s"

definition lower_char :: "char \<Rightarrow> char" where
  "lower_char c =
     (if 65 \<le> (of_char c :: nat) \<and> (of_char c :: nat) \<le> 90
      then char_of ((of_char c :: nat) + 32) else c)"

definition lower :: "string \<Rightarrow> string" where
  "lower s = map lower_char s"

definition startswith :: "string \<Rightarrow> string \<Rightarrow> bool" where
  "startswith s p = (take (length p) s = p)"

definition endswith :: "string \<Rightarrow> string \<Rightarrow> bool" where
  "endswith s p = (length p \<le> length s \<and> drop (length s - length p) s = p)"

text \<open>\<^verbatim>\<open>sub in s\<close> for strings.\<close>

fun contains :: "string \<Rightarrow> string \<Rightarrow> bool" where
  "contains [] sub = (sub = [])"
| "contains (c # s) sub = (startswith (c # s) sub \<or> contains s sub)"

text \<open>
  \<^verbatim>\<open>s.split(sep)\<close> and \<^verbatim>\<open>s.replace(old, new)\<close> for a non-empty separator: the
  occurrences are found left to right and do not overlap. The program only calls them with
  the constants \<^verbatim>\<open>' = '\<close>, \<^verbatim>\<open>'#'\<close>, \<^verbatim>\<open>'+'\<close>, \<^verbatim>\<open>'.'\<close> and a provider alias.
  With an empty separator the scan below copies the text unchanged (Python raises for
  \<^verbatim>\<open>split\<close>; no call site passes one).
\<close>

function split_from :: "string \<Rightarrow> string \<Rightarrow> string \<Rightarrow> string list" where
  "split_from sep acc [] = [rev acc]"
| "split_from sep acc (c # s) =
     (if sep \<noteq> [] \<and> startswith (c # s) sep
      then rev acc # split_from sep [] (drop (length sep) (c # s))
      else split_from sep (c # acc) s)"
  by pat_completeness auto
termination
  by (relation "measure (\<lambda>(sep, acc, s). length s)") auto

definition split :: "string \<Rightarrow> string \<Rightarrow> string list" where
  "split s sep = split_from sep [] s"

function replace :: "string \<Rightarrow> string \<Rightarrow> string \<Rightarrow> string" where
  "replace [] old new = []"
| "replace (c # s) old new =
     (if old \<noteq> [] \<and> startswith (c # s) old
      then new @ replace (drop (length old) (c # s)) old new
      else c # replace s old new)"
  by pat_completeness auto
termination
  by (relation "measure (\<lambda>(s, old, new). length s)") auto

text \<open>\<^verbatim>\<open>sep.join(xs)\<close> on a list of strings.\<close>

fun join :: "string \<Rightarrow> string list \<Rightarrow> string" where
  "join sep [] = []"
| "join sep [x] = x"
| "join sep (x # y # ys) = x @ sep @ join sep (y # ys)"

text \<open>Decimal text of an integer, as \<^verbatim>\<open>str(n)\<close> and \<^verbatim>\<open>'{}'.format(n)\<close> print it.\<close>

definition digit_char :: "nat \<Rightarrow> char" where
  "digit_char d = ''0123456789'' ! d"

fun str_of_nat :: "nat \<Rightarrow> string" where
  "str_of_nat n = (if n < 10 then [digit_char n] else str_of_nat (n div 10) @ [digit_char (n mod 10)])"

declare str_of_nat.simps [simp del]

definition str_of_int :: "int \<Rightarrow> string" where
  "str_of_int i = (if i < 0 then CHR ''-'' # str_of_nat (nat (- i)) else str_of_nat (nat i))"

subsection \<open>Dictionary operations\<close>

text \<open>\<^verbatim>\<open>d[k] = v\<close>: an existing key keeps its position, a new key goes last.\<close>

fun dict_set :: "string \<Rightarrow> 'v \<Rightarrow> (string \<times> 'v) list \<Rightarrow> (string \<times> 'v) list" where
  "dict_set k v [] = [(k, v)]"
| "dict_set k v ((k', v') # d) = (if k' = k then (k, v) # d else (k', v') # dict_set k v d)"

definition dict_pop :: "string \<Rightarrow> (string \<times> 'v) list \<Rightarrow> (string \<times> 'v) list" where
  "dict_pop k d = filter (\<lambda>kv. fst kv \<noteq> k) d"

text \<open>\<^verbatim>\<open>d.get(k)\<close> on a dictionary: \<open>None\<close> when the key is missing.\<close>

definition dict_get :: "(string \<times> 'v) list \<Rightarrow> string \<Rightarrow> 'v option" where
  "dict_get d k = map_of d k"

text \<open>A dictionary built by inserting the pairs of a list in order (a dict comprehension).\<close>

definition dict_of :: "(string \<times> 'v) list \<Rightarrow> (string \<times> 'v) list" where
  "dict_of kvs = foldl (\<lambda>d kv. dict_set (fst kv) (snd kv) d) [] kvs"

text \<open>
  \<^verbatim>\<open>x.get(k, default)\<close> on an arbitrary value: only a dict has the method.
  \<^verbatim>\<open>x[k]\<close> with a string key: a dict without the key raises \<^verbatim>\<open>KeyError\<close>, every other
  value raises \<^verbatim>\<open>TypeError\<close>.
\<close>

fun py_get :: "json \<Rightarrow> string \<Rightarrow> json \<Rightarrow> exn + json" where
  "py_get (JObj d) k dflt = Inr (case map_of d k of Some v \<Rightarrow> v | None \<Rightarrow> dflt)"
| "py_get _ k dflt = Inl AttributeError"

fun py_item :: "json \<Rightarrow> string \<Rightarrow> exn + json" where
  "py_item (JObj d) k = (case map_of d k of Some v \<Rightarrow> Inr v | None \<Rightarrow> Inl (KeyError k))"
| "py_item _ k = Inl TypeError"

section \<open>RequestEngine\<close>

text \<open>
  The network is an input of the model: \<open>http_get W n req\<close> is what the \<open>n\<close>-th call of
  \<^verbatim>\<open>requests.get\<close> (counted over the whole process) does when it is given \<open>req\<close>. It
  either raises inside the \<^verbatim>\<open>try\<close> block (\<open>Fails cls msg\<close>: the exception's class name
  and its \<^verbatim>\<open>str\<close>; a body that is not JSON fails here too) or yields a response and its
  parsed body. The clock and the local calendar are inputs as well.
\<close>

record request =
  req_url :: string
  req_params :: pydict
  req_headers :: "(string \<times> string) list"
  req_timeout :: "int option"

record response =
  status_code :: int
  resp_headers :: "(string \<times> string) list"
  body_text :: string

datatype attempt = Fails string string | Replies response json

record datetime =
  dt_year :: nat
  dt_month :: nat
  dt_day :: nat
  dt_hour :: nat
  dt_minute :: nat
  dt_second :: nat

text \<open>
  \<open>http_get\<close> is the network; \<open>utcnow n\<close> is what the \<open>n\<close>-th read of
  \<^verbatim>\<open>datetime.datetime.utcnow()\<close> returns; \<open>fromtimestamp\<close> is the local calendar
  (\<open>None\<close> where \<^verbatim>\<open>datetime.fromtimestamp\<close> raises for an epoch out of its range);
  \<open>today\<close> is \<^verbatim>\<open>datetime.date.today()\<close>; \<open>container_str\<close> is \<^verbatim>\<open>str\<close> on lists and
  dicts.
\<close>

record world =
  http_get :: "nat \<Rightarrow> request \<Rightarrow> attempt"
  utcnow :: "nat \<Rightarrow> datetime"
  fromtimestamp :: "int \<Rightarrow> datetime option"
  today :: datetime
  container_str :: "json \<Rightarrow> string"

text \<open>
  The mutable state of a batch: every \<^verbatim>\<open>GET\<close> call made so far (\<open>sent\<close>, one entry per
  call, not per retry), the number of \<^verbatim>\<open>requests.get\<close> attempts made so far, the shared
  buffer \<^verbatim>\<open>DATA['rows']\<close>, the number of clock reads, and the current wrapper's
  \<^verbatim>\<open>_response\<close> and \<^verbatim>\<open>_response_json\<close> attributes (unset until its first successful
  request).
\<close>

record state =
  sent :: "request list"
  attempts :: nat
  rows :: "pydict list"
  clock_reads :: nat
  last_response :: "(response \<times> json) option"

definition error_msg :: "string \<Rightarrow> string \<Rightarrow> string \<Rightarrow> string" where
  "error_msg ecls cls emsg = ''Error('' @ ecls @ ''). '' @ cls @ '': '' @ emsg"

text \<open>
  The \<^verbatim>\<open>while True\<close> loop of \<^verbatim>\<open>RequestEngine.GET\<close>. \<open>net n\<close> is the outcome of attempt
  number \<open>n\<close> for the request at hand, \<open>limit\<close> is \<^verbatim>\<open>self._errors_limit\<close>, \<open>cls\<close> the
  wrapper's class name, \<open>errors\<close> the counter. The loop need not end (a limit that the
  counter never equals, and a network that always fails): not returning is \<open>None\<close>.
  The result carries the index of the next attempt.
\<close>

partial_function (option) GET_loop ::
  "(nat \<Rightarrow> attempt) \<Rightarrow> int \<Rightarrow> string \<Rightarrow> int \<Rightarrow> nat \<Rightarrow> ((exn + response \<times> json) \<times> nat) option" where
  "GET_loop net limit cls errors n =
     (case net n of
        Replies r j \<Rightarrow> Some (Inr (r, j), Suc n)
      | Fails ecls emsg \<Rightarrow>
          (if errors + 1 = limit
           then Some (Inl (RequestEngineError (error_msg ecls cls emsg)), Suc n)
           else GET_loop net limit cls (errors + 1) (Suc n)))"

declare GET_loop.simps [code]

definition GET ::
  "world \<Rightarrow> int \<Rightarrow> string \<Rightarrow> request \<Rightarrow> state \<Rightarrow> ((exn + response \<times> json) \<times> state) option" where
  "GET W limit cls req st =
     (case GET_loop (\<lambda>n. http_get W n req) limit cls 0 (attempts st) of
        None \<Rightarrow> None
      | Some (r, n') \<Rightarrow> Some (r, st\<lparr>sent := sent st @ [req], attempts := n'\<rparr>))"

section \<open>Conversions of values\<close>

text \<open>
  \<^verbatim>\<open>str(x)\<close> and \<^verbatim>\<open>'{}'.format(x)\<close>. A \<^verbatim>\<open>float\<close> prints as its \<^verbatim>\<open>repr\<close>; the text of
  a list or dict is left to the world.
\<close>

fun py_str :: "world \<Rightarrow> json \<Rightarrow> string" where
  "py_str W JNull = ''None''"
| "py_str W (JBool b) = (if b then ''True'' else ''False'')"
| "py_str W (JInt i) = str_of_int i"
| "py_str W (JFloat r) = r"
| "py_str W (JStr s) = s"
| "py_str W (JList xs) = container_str W (JList xs)"
| "py_str W (JObj d) = container_str W (JObj d)"

text \<open>
  Whether \<^verbatim>\<open>str(x).strip()\<close> is non-empty. The text of \<^verbatim>\<open>None\<close>, of a bool, of a number,
  of a list or of a dict is never empty and has no blank at either end, so only a string
  can be blank.
\<close>

fun str_strip_truthy :: "json \<Rightarrow> bool" where
  "str_strip_truthy (JStr s) = (strip s \<noteq> [])"
| "str_strip_truthy _ = True"

text \<open>Iterating a value (\<^verbatim>\<open>for x in v\<close>, \<^verbatim>\<open>list.extend(v)\<close>): a dict yields its keys.\<close>

fun py_iter :: "json \<Rightarrow> exn + json list" where
  "py_iter (JList xs) = Inr xs"
| "py_iter (JStr s) = Inr (map (\<lambda>c. JStr [c]) s)"
| "py_iter (JObj d) = Inr (map (\<lambda>kv. JStr (fst kv)) d)"
| "py_iter _ = Inl TypeError"

text \<open>\<^verbatim>\<open>'$' in v\<close> and \<^verbatim>\<open>len(v)\<close>.\<close>

fun py_contains :: "json \<Rightarrow> string \<Rightarrow> exn + bool" where
  "py_contains (JStr s) x = Inr (contains s x)"
| "py_contains (JList xs) x = Inr (JStr x \<in> set xs)"
| "py_contains (JObj d) x = Inr (x \<in> fst ` set d)"
| "py_contains _ x = Inl TypeError"

fun py_len :: "json \<Rightarrow> exn + int" where
  "py_len (JStr s) = Inr (int (length s))"
| "py_len (JList xs) = Inr (int (length xs))"
| "py_len (JObj d) = Inr (int (length d))"
| "py_len _ = Inl TypeError"

text \<open>\<^verbatim>\<open>sep.join(v)\<close>: every item of the iterable must be a string.\<close>

fun the_strs :: "json list \<Rightarrow> string list option" where
  "the_strs [] = Some []"
| "the_strs (JStr s # xs) = (case the_strs xs of None \<Rightarrow> None | Some ss \<Rightarrow> Some (s # ss))"
| "the_strs (_ # xs) = None"

definition py_join :: "string \<Rightarrow> json \<Rightarrow> exn + json" where
  "py_join sep v =
     (case py_iter v of
        Inl e \<Rightarrow> Inl e
      | Inr xs \<Rightarrow> (case the_strs xs of None \<Rightarrow> Inl TypeError | Some ss \<Rightarrow> Inr (JStr (join sep ss))))"

text \<open>\<^verbatim>\<open>v.replace(old, new)\<close>: a method of strings only.\<close>

fun py_replace :: "json \<Rightarrow> string \<Rightarrow> string \<Rightarrow> exn + json" where
  "py_replace (JStr s) old new = Inr (JStr (replace s old new))"
| "py_replace _ old new = Inl AttributeError"

definition bindE :: "exn + 'a \<Rightarrow> ('a \<Rightarrow> exn + 'b) \<Rightarrow> exn + 'b" where
  "bindE m f = (case m of Inl e \<Rightarrow> Inl e | Inr x \<Rightarrow> f x)"

text \<open>
  \<^verbatim>\<open>int(s)\<close> on a string: blanks around it are dropped, a sign may lead, and the digits
  may be grouped by single underscores. \<open>None\<close> is \<^verbatim>\<open>ValueError\<close>.
\<close>

definition is_digit :: "char \<Rightarrow> bool" where
  "is_digit c = (48 \<le> (of_char c :: nat) \<and> (of_char c :: nat) \<le> 57)"

definition digits_value :: "string \<Rightarrow> int" where
  "digits_value ds = foldl (\<lambda>a c. 10 * a + (int (of_char c) - 48)) 0 (filter is_digit ds)"

definition parse_digits :: "string \<Rightarrow> int option" where
  "parse_digits ds =
     (if ds \<noteq> [] \<and> list_all (\<lambda>c. is_digit c \<or> c = CHR ''_'') ds \<and> hd ds \<noteq> CHR ''_''
         \<and> last ds \<noteq> CHR ''_'' \<and> \<not> contains ds ''__''
      then Some (digits_value ds) else None)"

definition py_int :: "string \<Rightarrow> int option" where
  "py_int s =
     (case strip s of
        [] \<Rightarrow> None
      | c # r \<Rightarrow>
          if c = CHR ''-'' then map_option uminus (parse_digits r)
          else if c = CHR ''+'' then parse_digits r
          else parse_digits (c # r))"

text \<open>\<^verbatim>\<open>strftime\<close> with the three formats the program uses.\<close>

definition pad2 :: "nat \<Rightarrow> string" where
  "pad2 n = (if n < 10 then CHR ''0'' # str_of_nat n else str_of_nat n)"

definition pad4 :: "nat \<Rightarrow> string" where
  "pad4 n = replicate (4 - length (str_of_nat n)) (CHR ''0'') @ str_of_nat n"

definition strftime_file :: "datetime \<Rightarrow> string" where
  "strftime_file t = pad2 (dt_day t) @ pad2 (dt_month t) @ pad4 (dt_year t) @ ''_''
                      @ pad2 (dt_hour t) @ pad2 (dt_minute t) @ pad2 (dt_second t)"

definition strftime_run :: "datetime \<Rightarrow> string" where
  "strftime_run t = pad2 (dt_day t) @ ''.'' @ pad2 (dt_month t) @ ''.'' @ pad4 (dt_year t) @ ''/''
                     @ pad2 (dt_hour t) @ '':'' @ pad2 (dt_minute t) @ '':'' @ pad2 (dt_second t)"

definition strftime_date :: "datetime \<Rightarrow> string" where
  "strftime_date t = pad2 (dt_day t) @ ''-'' @ pad2 (dt_month t) @ ''-'' @ pad4 (dt_year t)"

definition strftime_ymd :: "datetime \<Rightarrow> string" where
  "strftime_ymd t = pad4 (dt_year t) @ pad2 (dt_month t) @ pad2 (dt_day t)"

section \<open>FileTools\<close>

definition CSV_HEADERS :: "string list" where
  "CSV_HEADERS =
     [''QUERY'', ''TOTAL_API'', ''TOTAL_EXTRACTED'', ''SOURCE_LINK'', ''API_SOURCE'', ''ID'',
      ''NAME'', ''IS_CLOSED'', ''CATEGORY_1'', ''CATEGORY_2'', ''CATEGORY_3'', ''RATING'',
      ''REVIEWS_AMOUNT'', ''LIKES_AMOUNT'', ''CHECKINS'', ''PRICE'', ''LATITUDE'', ''LONGITUDE'',
      ''ADDRESS'', ''PHONE'', ''WEBSITE'', ''CREATED_AT_DATE'', ''RUN_TIMESTAMP'']"

definition dash :: json where
  "dash = JStr ''-''"

text \<open>
  One cell of \<^verbatim>\<open>csv_out\<close>:
  \<^verbatim>\<open>row.get(h) if row.get(h, '') and str(row.get(h, '')).strip() else '-'\<close>.
\<close>

definition csv_cell :: "pydict \<Rightarrow> string \<Rightarrow> json" where
  "csv_cell row h =
     (let v = (case map_of row h of Some x \<Rightarrow> x | None \<Rightarrow> JStr '''')
      in if truthy v \<and> str_strip_truthy v
         then (case map_of row h of Some x \<Rightarrow> x | None \<Rightarrow> JNull)
         else dash)"

text \<open>
  The written file: its name and the rows handed to \<^verbatim>\<open>csv.writer.writerow\<close>, the header
  row first. How the writer prints a cell (delimiter, escaping) is the library's.
\<close>

record csv_file =
  filename :: string
  written :: "json list list"

definition csv_out :: "datetime \<Rightarrow> pydict list \<Rightarrow> csv_file" where
  "csv_out now DATA_rows =
     \<lparr> filename = ''output_'' @ strftime_file now @ ''.csv'',
       written = map JStr CSV_HEADERS # map (\<lambda>row. map (csv_cell row) CSV_HEADERS) DATA_rows \<rparr>"

section \<open>KeysParser\<close>

definition KEY_PLACEHOLDER :: string where
  "KEY_PLACEHOLDER = ''set_key_here''"





text \<open>
  \<^verbatim>\<open>parse_keys\<close>. The unpacking \<^verbatim>\<open>header, key = keys_line.split(' = ')\<close> raises
  \<^verbatim>\<open>ValueError\<close> unless the split has exactly two parts.
\<close>

fun parse_keys_loop ::
  "string \<Rightarrow> string list \<Rightarrow> (string \<times> string) list \<Rightarrow> exn + (string \<times> string) list" where
  "parse_keys_loop wrapper_alias [] keys = Inr keys"
| "parse_keys_loop wrapper_alias (keys_line # ls) keys =
     (case split keys_line '' = '' of
        [header0, key] \<Rightarrow>
          (let header = lower header0 in
           if contains header wrapper_alias \<and> key \<noteq> KEY_PLACEHOLDER \<and> key \<noteq> []
           then parse_keys_loop wrapper_alias ls
                  (dict_set (strip_chars ''_'' (replace header wrapper_alias '''')) key keys)
           else parse_keys_loop wrapper_alias ls keys)
      | _ \<Rightarrow> Inl ValueError)"

definition parse_keys :: "string list \<Rightarrow> string \<Rightarrow> exn + (string \<times> string) list" where
  "parse_keys keys_lines wrapper_alias = parse_keys_loop wrapper_alias keys_lines []"

section \<open>InputTermsParser\<close>

text \<open>
  A term as \<^verbatim>\<open>parse_terms\<close> builds it: field names to the cells' texts. An input file is
  given as the rows \<^verbatim>\<open>csv.reader\<close> yields, in order; \<^verbatim>\<open>next(csv_data)\<close> drops the first
  and raises \<^verbatim>\<open>StopIteration\<close> when there is none.
\<close>

type_synonym term_dict = "(string \<times> string) list"

definition filter_empty_values :: "term_dict \<Rightarrow> term_dict" where
  "filter_empty_values dict_to_filter = filter (\<lambda>kv. strip (snd kv) \<noteq> []) dict_to_filter"

definition row_term :: "string list \<Rightarrow> string list \<Rightarrow> term_dict" where
  "row_term terms_headers row =
     filter_empty_values
       (dict_of (filter (\<lambda>kv. \<not> startswith (fst kv) ''drop_'') (zip terms_headers row)))"

fun parse_terms :: "string list \<Rightarrow> string list list list \<Rightarrow> exn + term_dict list" where
  "parse_terms terms_headers [] = Inr []"
| "parse_terms terms_headers ([] # files) = Inl StopIteration"
| "parse_terms terms_headers ((first_row # csv_data) # files) =
     (case parse_terms terms_headers files of
        Inl e \<Rightarrow> Inl e
      | Inr terms \<Rightarrow> Inr (map (row_term terms_headers) (filter (\<lambda>row. row \<noteq> []) csv_data) @ terms))"

section \<open>The wrappers\<close>

datatype wrapper_class = Yelp__ApiWrapper | Foursquare__ApiWrapper | Facebook__ApiWrapper

fun class_name :: "wrapper_class \<Rightarrow> string" where
  "class_name Yelp__ApiWrapper = ''Yelp__ApiWrapper''"
| "class_name Foursquare__ApiWrapper = ''Foursquare__ApiWrapper''"
| "class_name Facebook__ApiWrapper = ''Facebook__ApiWrapper''"

fun API_ALIAS :: "wrapper_class \<Rightarrow> string" where
  "API_ALIAS Yelp__ApiWrapper = ''yelp''"
| "API_ALIAS Foursquare__ApiWrapper = ''foursquare''"
| "API_ALIAS Facebook__ApiWrapper = ''facebook''"

fun TERMS_HEADERS :: "wrapper_class \<Rightarrow> string list" where
  "TERMS_HEADERS Yelp__ApiWrapper =
     [''term'', ''location'', ''latitude'', ''longitude'', ''radius'', ''limit'']"
| "TERMS_HEADERS Foursquare__ApiWrapper =
     [''query'', ''near'', ''latitude'', ''longitude'', ''radius'', ''limit'', ''foursquare_id'']"
| "TERMS_HEADERS Facebook__ApiWrapper =
     [''q'', ''drop_1'', ''latitude'', ''longitude'', ''radius'', ''limit'', ''drop_3'',
      ''facebook_id'']"

text \<open>
  The attributes \<^verbatim>\<open>__init__\<close> sets. \<open>timeout\<close> is Yelp's \<^verbatim>\<open>_timeout\<close> and
  \<open>term_current_date\<close> is Foursquare's \<^verbatim>\<open>_term_current_date\<close>; the other classes do not
  read them.
\<close>

record wrapper =
  cls :: wrapper_class
  keys :: "(string \<times> string) list"
  terms :: "term_dict list"
  errors_limit :: int
  timeout :: int
  term_current_date :: string

type_synonym 'a result = "((exn + 'a) \<times> state) option"

text \<open>
  What every \<^verbatim>\<open>..._endpoint\<close> method does: one \<^verbatim>\<open>GET\<close> call, whose result is stored in
  \<^verbatim>\<open>self._response\<close> and \<^verbatim>\<open>self._response_json\<close>.
\<close>

definition call_endpoint :: "world \<Rightarrow> wrapper \<Rightarrow> request \<Rightarrow> state \<Rightarrow> unit result" where
  "call_endpoint W w req st =
     (case GET W (errors_limit w) (class_name (cls w)) req st of
        None \<Rightarrow> None
      | Some (Inl e, st') \<Rightarrow> Some (Inl e, st')
      | Some (Inr rj, st') \<Rightarrow> Some (Inr (), st'\<lparr>last_response := Some rj\<rparr>))"

text \<open>Reading \<^verbatim>\<open>self._response_json\<close>: the attribute does not exist before the first reply.\<close>

definition response_json :: "state \<Rightarrow> exn + json" where
  "response_json st = (case last_response st of None \<Rightarrow> Inl AttributeError | Some (r, j) \<Rightarrow> Inr j)"

definition key_or_empty :: "wrapper \<Rightarrow> string \<Rightarrow> string" where
  "key_or_empty w k = (case map_of (keys w) k of Some v \<Rightarrow> v | None \<Rightarrow> [])"

text \<open>\<^verbatim>\<open>term.get(i)\<close> is truthy for one of the listed fields.\<close>

definition any_field :: "term_dict \<Rightarrow> string list \<Rightarrow> bool" where
  "any_field term names =
     list_ex (\<lambda>i. case map_of term i of Some v \<Rightarrow> v \<noteq> [] | None \<Rightarrow> False) names"

definition as_params :: "term_dict \<Rightarrow> pydict" where
  "as_params term = map (\<lambda>kv. (fst kv, JStr (snd kv))) term"

text \<open>
  Building a record: the assignments \<^verbatim>\<open>ROW[k] = ...\<close> in source order, each with the
  value its right-hand side yields or the exception it raises. The first exception ends
  the construction.
\<close>

fun assign_all :: "(string \<times> (exn + json)) list \<Rightarrow> pydict \<Rightarrow> exn + pydict" where
  "assign_all [] ROW = Inr ROW"
| "assign_all ((k, Inl e) # fs) ROW = Inl e"
| "assign_all ((k, Inr v) # fs) ROW = assign_all fs (dict_set k v ROW)"

text \<open>
  The block \<^verbatim>\<open>if categories: for category in categories: ...\<close>, which all three parsers
  share up to the name of the field read from a category.
\<close>

definition category_assignments :: "string \<Rightarrow> exn + json \<Rightarrow> (string \<times> (exn + json)) list" where
  "category_assignments field categories =
     (case categories of
        Inl e \<Rightarrow> [(''categories'', Inl e)]
      | Inr c \<Rightarrow>
          if truthy c
          then (case py_iter c of
                  Inl e \<Rightarrow> [(''categories'', Inl e)]
                | Inr xs \<Rightarrow>
                    map (\<lambda>nc. (''CATEGORY_'' @ str_of_nat (fst nc), py_get (snd nc) field dash))
                        (zip [1 ..< Suc (length xs)] xs))
          else [])"

text \<open>\<^verbatim>\<open>len(x.get(k)) if '$' in x.get(k, '-') else '-'\<close>.\<close>

definition price_count :: "json \<Rightarrow> string \<Rightarrow> exn + json" where
  "price_count x k =
     bindE (py_get x k dash) (\<lambda>p.
     bindE (py_contains p ''$'') (\<lambda>b.
       if b then bindE (py_get x k JNull) (\<lambda>q. bindE (py_len q) (\<lambda>n. Inr (JInt n)))
       else Inr dash))"

text \<open>\<^verbatim>\<open>x.get(k1, {}).get(k2, default)\<close>.\<close>

definition get2 :: "json \<Rightarrow> string \<Rightarrow> string \<Rightarrow> json \<Rightarrow> exn + json" where
  "get2 x k1 k2 dflt = bindE (py_get x k1 (JObj [])) (\<lambda>y. py_get y k2 dflt)"

text \<open>
  A value that \<^verbatim>\<open>'{:>5}'.format\<close> accepts: the alignment specification is rejected by
  \<^verbatim>\<open>None\<close>, lists and dicts.
\<close>

fun format_accepts :: "json \<Rightarrow> bool" where
  "format_accepts JNull = False"
| "format_accepts (JList xs) = False"
| "format_accepts (JObj d) = False"
| "format_accepts _ = True"

subsection \<open>Yelp\<close>

definition BUSINESS_SEARCH :: string where
  "BUSINESS_SEARCH = ''https://api.yelp.com/v3/businesses/search''"

definition yelp_api_results_max_limit :: int where
  "yelp_api_results_max_limit = 1000"

definition limit_max_per_offset :: int where
  "limit_max_per_offset = 50"

definition business_search_endpoint :: "world \<Rightarrow> wrapper \<Rightarrow> pydict \<Rightarrow> state \<Rightarrow> unit result" where
  "business_search_endpoint W w query st =
     call_endpoint W w
       \<lparr> req_url = BUSINESS_SEARCH, req_params = query,
         req_headers = [(''Authorization'', ''Bearer '' @ key_or_empty w ''apikey'')],
         req_timeout = Some (timeout w) \<rparr> st"

definition yelp_row ::
  "world \<Rightarrow> json \<Rightarrow> nat \<Rightarrow> string \<Rightarrow> datetime \<Rightarrow> json \<Rightarrow> exn + pydict" where
  "yelp_row W rj n_businesses search_term_str now business =
     assign_all
       ([(''API_SOURCE'', Inr (JStr ''yelp'')),
         (''SOURCE_LINK'', py_get business ''url'' dash),
         (''QUERY'', Inr (JStr search_term_str)),
         (''TOTAL_API'', py_get rj ''total'' dash),
         (''TOTAL_EXTRACTED'', Inr (JInt (int n_businesses))),
         (''ID'', py_get business ''id'' dash),
         (''NAME'', py_get business ''name'' dash),
         (''IS_CLOSED'', bindE (py_get business ''is_closed'' dash) (\<lambda>v. Inr (JStr (py_str W v))))]
        @ category_assignments ''alias'' (py_get business ''categories'' JNull)
        @ [(''REVIEWS_AMOUNT'', py_get business ''review_count'' dash),
           (''RATING'', py_get business ''rating'' dash),
           (''PRICE'', price_count business ''price''),
           (''LATITUDE'', get2 business ''coordinates'' ''latitude'' dash),
           (''LONGITUDE'', get2 business ''coordinates'' ''longitude'' dash),
           (''ADDRESS'', bindE (get2 business ''location'' ''display_address'' dash) (py_join '', '')),
           (''PHONE'', bindE (py_get business ''phone'' dash) (\<lambda>p. py_replace p ''+'' '''')),
           (''RUN_TIMESTAMP'', Inr (JStr (strftime_run now)))])
       []"

text \<open>The loop \<^verbatim>\<open>for business in businesses\<close>; \<open>n\<close> is \<^verbatim>\<open>len(businesses)\<close>.\<close>

fun yelp_rows :: "world \<Rightarrow> json \<Rightarrow> nat \<Rightarrow> string \<Rightarrow> json list \<Rightarrow> state \<Rightarrow> (exn + unit) \<times> state" where
  "yelp_rows W rj n search_term_str [] st = (Inr (), st)"
| "yelp_rows W rj n search_term_str (business # bs) st =
     (case yelp_row W rj n search_term_str (utcnow W (clock_reads st)) business of
        Inl e \<Rightarrow> (Inl e, st)
      | Inr ROW \<Rightarrow>
          yelp_rows W rj n search_term_str bs
            (st\<lparr>rows := rows st @ [ROW], clock_reads := Suc (clock_reads st)\<rparr>))"

text \<open>
  \<^verbatim>\<open>parse_business_search_json_response\<close>. The module constant \<^verbatim>\<open>_VERBOSE\<close> is
  \<^verbatim>\<open>True\<close>, so the summary line is formatted first, and formatting can raise.
\<close>

definition parse_business_search_json_response ::
  "world \<Rightarrow> json list \<Rightarrow> string \<Rightarrow> state \<Rightarrow> (exn + unit) \<times> state" where
  "parse_business_search_json_response W businesses search_term_str st =
     (case response_json st of
        Inl e \<Rightarrow> (Inl e, st)
      | Inr rj \<Rightarrow>
          (case py_get rj ''total'' dash of
             Inl e \<Rightarrow> (Inl e, st)
           | Inr total_api \<Rightarrow>
               if format_accepts total_api
               then yelp_rows W rj (length businesses) search_term_str businesses st
               else (Inl TypeError, st)))"

text \<open>
  The pagination loop
  \<^verbatim>\<open>while offset < term_limit_user and offset < self.yelp_api_results_max_limit\<close>.
  It returns the accumulated \<^verbatim>\<open>businesses\<close>.
\<close>

function yelp_pages ::
  "world \<Rightarrow> wrapper \<Rightarrow> pydict \<Rightarrow> int \<Rightarrow> int \<Rightarrow> json list \<Rightarrow> state \<Rightarrow> json list result" where
  "yelp_pages W w term offset term_limit_user businesses st =
     (if offset < term_limit_user \<and> offset < yelp_api_results_max_limit
      then (case business_search_endpoint W w (dict_set ''offset'' (JInt offset) term) st of
              None \<Rightarrow> None
            | Some (Inl e, st') \<Rightarrow> Some (Inl e, st')
            | Some (Inr u, st') \<Rightarrow>
                (case bindE (response_json st') (\<lambda>rj. py_get rj ''businesses'' (JList [])) of
                   Inl e \<Rightarrow> Some (Inl e, st')
                 | Inr businesses_from_json_response \<Rightarrow>
                     if truthy businesses_from_json_response
                     then (case py_iter businesses_from_json_response of
                             Inl e \<Rightarrow> Some (Inl e, st')
                           | Inr page \<Rightarrow>
                               yelp_pages W w (dict_set ''offset'' (JInt offset) term)
                                 (offset + 50) term_limit_user (businesses @ page) st')
                     else Some (Inr businesses, st')))
      else Some (Inr businesses, st))"
  by pat_completeness auto
termination
  by (relation "measure (\<lambda>(W, w, term, offset, lim, bs, st). nat (yelp_api_results_max_limit - offset))")
     (auto simp: yelp_api_results_max_limit_def)

declare yelp_pages.simps [simp del]

definition yelp_search_term_str :: "term_dict \<Rightarrow> string" where
  "yelp_search_term_str term = join ''|'' (filter (\<lambda>v. strip v \<noteq> []) (map snd term))"

text \<open>The \<^verbatim>\<open>else\<close> branch: one request, and \<^verbatim>\<open>self._response_json['businesses']\<close>.\<close>

definition yelp_single :: "world \<Rightarrow> wrapper \<Rightarrow> pydict \<Rightarrow> state \<Rightarrow> json list result" where
  "yelp_single W w term st =
     (case business_search_endpoint W w term st of
        None \<Rightarrow> None
      | Some (Inl e, st') \<Rightarrow> Some (Inl e, st')
      | Some (Inr u, st') \<Rightarrow>
          (case bindE (response_json st') (\<lambda>rj. bindE (py_item rj ''businesses'') py_iter) of
             Inl e \<Rightarrow> Some (Inl e, st')
           | Inr businesses \<Rightarrow> Some (Inr businesses, st')))"

text \<open>
  \<^verbatim>\<open>int(term.get('limit')) if term.get('limit') else None\<close>, and the choice
  \<^verbatim>\<open>if term_limit_user and term_limit_user > self.limit_max_per_offset\<close> between the
  paginated and the single request.
\<close>

definition term_limit_user_of :: "term_dict \<Rightarrow> exn + int option" where
  "term_limit_user_of term =
     (case map_of term ''limit'' of
        None \<Rightarrow> Inr None
      | Some l \<Rightarrow>
          if l = [] then Inr None
          else (case py_int l of None \<Rightarrow> Inl ValueError | Some i \<Rightarrow> Inr (Some i)))"

definition yelp_businesses ::
  "world \<Rightarrow> wrapper \<Rightarrow> term_dict \<Rightarrow> int option \<Rightarrow> state \<Rightarrow> json list result" where
  "yelp_businesses W w term term_limit_user st =
     (case term_limit_user of
        None \<Rightarrow> yelp_single W w (as_params term) st
      | Some lim \<Rightarrow>
          if lim \<noteq> 0 \<and> lim > limit_max_per_offset
          then yelp_pages W w (dict_set ''limit'' (JInt limit_max_per_offset) (as_params term))
                 0 lim [] st
          else yelp_single W w (as_params term) st)"

text \<open>One iteration of \<^verbatim>\<open>for term in self._terms\<close> in \<^verbatim>\<open>Yelp__ApiWrapper.run\<close>.\<close>

definition yelp_term :: "world \<Rightarrow> wrapper \<Rightarrow> term_dict \<Rightarrow> state \<Rightarrow> unit result" where
  "yelp_term W w term st =
     (if \<not> any_field term [''location'', ''latitude'', ''longitude''] then Some (Inr (), st)
      else
        (case term_limit_user_of term of
           Inl e \<Rightarrow> Some (Inl e, st)
         | Inr term_limit_user \<Rightarrow>
             (case yelp_businesses W w term term_limit_user st of
                None \<Rightarrow> None
              | Some (Inl e, st') \<Rightarrow> Some (Inl e, st')
              | Some (Inr businesses, st') \<Rightarrow>
                  Some (parse_business_search_json_response W businesses
                          (yelp_search_term_str term) st'))))"

fun yelp_run_terms :: "world \<Rightarrow> wrapper \<Rightarrow> term_dict list \<Rightarrow> state \<Rightarrow> unit result" where
  "yelp_run_terms W w [] st = Some (Inr (), st)"
| "yelp_run_terms W w (term # ts) st =
     (case yelp_term W w term st of
        None \<Rightarrow> None
      | Some (Inl e, st') \<Rightarrow> Some (Inl e, st')
      | Some (Inr u, st') \<Rightarrow> yelp_run_terms W w ts st')"

definition yelp_run :: "world \<Rightarrow> wrapper \<Rightarrow> state \<Rightarrow> unit result" where
  "yelp_run W w st = yelp_run_terms W w (terms w) st"

subsection \<open>The detail queue of Foursquare and Facebook\<close>

text \<open>
  \<^verbatim>\<open>collections.defaultdict(list)\<close>, keyed by the search string: a key is created, with
  an empty list, the first time it is looked up, and keeps its place afterwards. Both
  \<^verbatim>\<open>append\<close> and \<^verbatim>\<open>extend\<close> add at the end of the key's list.
\<close>

type_synonym queue = "(string \<times> pydict list) list"

definition queue_extend :: "string \<Rightarrow> pydict list \<Rightarrow> queue \<Rightarrow> queue" where
  "queue_extend s items q = dict_set s ((case map_of q s of None \<Rightarrow> [] | Some old \<Rightarrow> old) @ items) q"

text \<open>
  \<^verbatim>\<open>[{key: x['id']} for x in xs if x.get('id')]\<close>, the list both search parsers build.
\<close>

fun collect_ids :: "string \<Rightarrow> json list \<Rightarrow> exn + pydict list" where
  "collect_ids key [] = Inr []"
| "collect_ids key (x # xs) =
     (case py_get x ''id'' JNull of
        Inl e \<Rightarrow> Inl e
      | Inr i \<Rightarrow>
          (case collect_ids key xs of
             Inl e \<Rightarrow> Inl e
           | Inr r \<Rightarrow> Inr (if truthy i then [(key, i)] # r else r)))"

text \<open>
  \<^verbatim>\<open>if term.get('latitude') and term.get('longitude'): term[k] = '{},{}'.format(
  term.pop('latitude'), term.pop('longitude'))\<close>.
\<close>

definition truthy_at :: "pydict \<Rightarrow> string \<Rightarrow> bool" where
  "truthy_at term k = (case map_of term k of Some v \<Rightarrow> truthy v | None \<Rightarrow> False)"

definition merge_coordinates :: "world \<Rightarrow> string \<Rightarrow> pydict \<Rightarrow> pydict" where
  "merge_coordinates W k term =
     (if truthy_at term ''latitude'' \<and> truthy_at term ''longitude''
      then (case (map_of term ''latitude'', map_of term ''longitude'') of
              (Some la, Some lo) \<Rightarrow>
                dict_set k (JStr (py_str W la @ '','' @ py_str W lo))
                  (dict_pop ''longitude'' (dict_pop ''latitude'' term))
            | _ \<Rightarrow> term)
      else term)"

text \<open>
  The conversion of \<^verbatim>\<open>ROW['CREATED_AT']\<close>: \<^verbatim>\<open>isinstance(x, int)\<close> holds for integers
  and for booleans.
\<close>

definition date_of_epoch :: "world \<Rightarrow> int \<Rightarrow> exn + json" where
  "date_of_epoch W i =
     (case fromtimestamp W i of None \<Rightarrow> Inl OverflowError | Some t \<Rightarrow> Inr (JStr (strftime_date t)))"

fun created_at_date :: "world \<Rightarrow> json \<Rightarrow> exn + json" where
  "created_at_date W (JInt i) = date_of_epoch W i"
| "created_at_date W (JBool b) = date_of_epoch W (if b then 1 else 0)"
| "created_at_date W _ = Inr dash"

subsection \<open>Foursquare\<close>

definition VENUE_SEARCH :: string where
  "VENUE_SEARCH = ''https://api.foursquare.com/v2/venues/search''"

definition VENUE_DETAILS :: "string \<Rightarrow> string" where
  "VENUE_DETAILS venue_id = ''https://api.foursquare.com/v2/venues/'' @ venue_id"

definition foursquare_update_term_credentials :: "wrapper \<Rightarrow> pydict \<Rightarrow> pydict" where
  "foursquare_update_term_credentials w term =
     dict_set ''v'' (JStr (term_current_date w))
       (dict_set ''client_secret'' (JStr (key_or_empty w ''client_secret''))
          (dict_set ''client_id'' (JStr (key_or_empty w ''client_id'')) term))"

definition plain_request :: "string \<Rightarrow> pydict \<Rightarrow> request" where
  "plain_request u term = \<lparr> req_url = u, req_params = term, req_headers = [], req_timeout = None \<rparr>"

definition venue_search_endpoint :: "world \<Rightarrow> wrapper \<Rightarrow> pydict \<Rightarrow> state \<Rightarrow> unit result" where
  "venue_search_endpoint W w term st = call_endpoint W w (plain_request VENUE_SEARCH term) st"

definition venue_details_endpoint :: "world \<Rightarrow> wrapper \<Rightarrow> pydict \<Rightarrow> state \<Rightarrow> unit result" where
  "venue_details_endpoint W w term st =
     (case map_of term ''foursquare_id'' of
        None \<Rightarrow> Some (Inl (KeyError ''foursquare_id''), st)
      | Some venue_id \<Rightarrow>
          call_endpoint W w
            (plain_request (VENUE_DETAILS (py_str W venue_id)) (dict_pop ''foursquare_id'' term)) st)"

definition parse_venues_search_json_response :: "state \<Rightarrow> exn + pydict list" where
  "parse_venues_search_json_response st =
     bindE (response_json st) (\<lambda>rj.
     bindE (get2 rj ''response'' ''venues'' (JObj [])) (\<lambda>venues.
     bindE (py_iter venues) (collect_ids ''foursquare_id'')))"

definition foursquare_row :: "world \<Rightarrow> string \<Rightarrow> datetime \<Rightarrow> json \<Rightarrow> exn + pydict" where
  "foursquare_row W search_term_str now venue =
     assign_all
       ([(''QUERY'', Inr (JStr search_term_str)),
         (''SOURCE_LINK'', py_get venue ''canonicalUrl'' dash),
         (''API_SOURCE'', Inr (JStr ''foursquare'')),
         (''ID'', py_get venue ''id'' dash),
         (''NAME'', py_get venue ''name'' dash),
         (''PHONE'', get2 venue ''contact'' ''phone'' dash),
         (''ADDRESS'', bindE (get2 venue ''location'' ''formattedAddress'' dash) (py_join '', '')),
         (''LATITUDE'', get2 venue ''location'' ''lat'' dash),
         (''LONGITUDE'', get2 venue ''location'' ''lng'' dash)]
        @ category_assignments ''name'' (py_get venue ''categories'' JNull)
        @ [(''CHECKINS'', get2 venue ''stats'' ''checkinsCount'' dash),
           (''WEBSITE'', py_get venue ''url'' dash),
           (''PRICE'', get2 venue ''price'' ''tier'' (JObj [])),
           (''RATING'', py_get venue ''rating'' dash),
           (''REVIEWS_AMOUNT'', py_get venue ''ratingSignals'' dash),
           (''CREATED_AT'', py_get venue ''createdAt'' dash),
           (''LIKES_AMOUNT'', get2 venue ''likes'' ''count'' dash),
           (''CREATED_AT_DATE'', bindE (py_get venue ''createdAt'' dash) (created_at_date W)),
           (''RUN_TIMESTAMP'', Inr (JStr (strftime_run now)))])
       []"

definition parse_venue_details_json_response ::
  "world \<Rightarrow> string \<Rightarrow> state \<Rightarrow> (exn + unit) \<times> state" where
  "parse_venue_details_json_response W search_term_str st =
     (case bindE (response_json st) (\<lambda>rj. bindE (py_item rj ''response'') (\<lambda>r. py_item r ''venue'')) of
        Inl e \<Rightarrow> (Inl e, st)
      | Inr venue \<Rightarrow>
          (case foursquare_row W search_term_str (utcnow W (clock_reads st)) venue of
             Inl e \<Rightarrow> (Inl e, st)
           | Inr ROW \<Rightarrow> (Inr (), st\<lparr>rows := rows st @ [ROW], clock_reads := Suc (clock_reads st)\<rparr>)))"

definition foursquare_search_term_str :: "term_dict \<Rightarrow> string" where
  "foursquare_search_term_str term =
     join ''|'' (map snd (filter (\<lambda>kv. fst kv \<noteq> ''client_id'' \<and> fst kv \<noteq> ''client_secret'') term))"

definition foursquare_skips :: "term_dict \<Rightarrow> bool" where
  "foursquare_skips term =
     (\<not> any_field term [''q'', ''near'', ''latitude'', ''longitude'', ''foursquare_id''])"

text \<open>The first loop of \<^verbatim>\<open>Foursquare__ApiWrapper.run\<close>: it fills the queue.\<close>

fun foursquare_search_phase ::
  "world \<Rightarrow> wrapper \<Rightarrow> term_dict list \<Rightarrow> queue \<Rightarrow> state \<Rightarrow> queue result" where
  "foursquare_search_phase W w [] venues_details_terms st = Some (Inr venues_details_terms, st)"
| "foursquare_search_phase W w (term # ts) venues_details_terms st =
     (if foursquare_skips term then foursquare_search_phase W w ts venues_details_terms st
      else
        (let search_term_str = foursquare_search_term_str term;
             term' = merge_coordinates W ''ll'' (foursquare_update_term_credentials w (as_params term))
         in if truthy_at term' ''foursquare_id''
            then foursquare_search_phase W w ts
                   (queue_extend search_term_str
                      [[(''foursquare_id'', case map_of term' ''foursquare_id'' of Some v \<Rightarrow> v | None \<Rightarrow> JNull)]]
                      venues_details_terms) st
            else (case venue_search_endpoint W w term' st of
                    None \<Rightarrow> None
                  | Some (Inl e, st') \<Rightarrow> Some (Inl e, st')
                  | Some (Inr u, st') \<Rightarrow>
                      (case parse_venues_search_json_response st' of
                         Inl e \<Rightarrow> Some (Inl e, st')
                       | Inr ids \<Rightarrow>
                           foursquare_search_phase W w ts
                             (queue_extend search_term_str ids venues_details_terms) st'))))"

text \<open>The second loop: \<^verbatim>\<open>for term in terms\<close> for one key, then over all keys.\<close>

fun foursquare_detail_terms ::
  "world \<Rightarrow> wrapper \<Rightarrow> string \<Rightarrow> pydict list \<Rightarrow> state \<Rightarrow> unit result" where
  "foursquare_detail_terms W w search_term_str [] st = Some (Inr (), st)"
| "foursquare_detail_terms W w search_term_str (term # ts) st =
     (case venue_details_endpoint W w (foursquare_update_term_credentials w term) st of
        None \<Rightarrow> None
      | Some (Inl e, st') \<Rightarrow> Some (Inl e, st')
      | Some (Inr u, st') \<Rightarrow>
          (case parse_venue_details_json_response W search_term_str st' of
             (Inl e, st'') \<Rightarrow> Some (Inl e, st'')
           | (Inr u', st'') \<Rightarrow> foursquare_detail_terms W w search_term_str ts st''))"

fun foursquare_detail_phase :: "world \<Rightarrow> wrapper \<Rightarrow> queue \<Rightarrow> state \<Rightarrow> unit result" where
  "foursquare_detail_phase W w [] st = Some (Inr (), st)"
| "foursquare_detail_phase W w ((search_term_str, ts) # q) st =
     (case foursquare_detail_terms W w search_term_str ts st of
        None \<Rightarrow> None
      | Some (Inl e, st') \<Rightarrow> Some (Inl e, st')
      | Some (Inr u, st') \<Rightarrow> foursquare_detail_phase W w q st')"

definition foursquare_run :: "world \<Rightarrow> wrapper \<Rightarrow> state \<Rightarrow> unit result" where
  "foursquare_run W w st =
     (case foursquare_search_phase W w (terms w) [] st of
        None \<Rightarrow> None
      | Some (Inl e, st') \<Rightarrow> Some (Inl e, st')
      | Some (Inr venues_details_terms, st') \<Rightarrow> foursquare_detail_phase W w venues_details_terms st')"

subsection \<open>Facebook\<close>

definition PLACES_SEARCH :: string where
  "PLACES_SEARCH = ''https://graph.facebook.com/v3.2/search''"

definition PLACE_INFORMATION :: "string \<Rightarrow> string" where
  "PLACE_INFORMATION place_id = ''https://graph.facebook.com/v3.3/'' @ place_id"

definition ID_FIELDS :: "string list" where
  "ID_FIELDS =
     [''about'', ''website'', ''category_list'', ''checkins'', ''cover'', ''engagement'', ''hours'',
      ''id'', ''is_always_open'', ''app_links'', ''is_permanently_closed'', ''is_verified'',
      ''description'', ''link'', ''location'', ''name'', ''overall_star_rating'', ''parking'',
      ''payment_options'', ''phone'', ''price_range'', ''rating_count'', ''restaurant_services'',
      ''restaurant_specialties'', ''single_line_address'']"

definition facebook_update_term_credentials :: "wrapper \<Rightarrow> pydict \<Rightarrow> pydict" where
  "facebook_update_term_credentials w term =
     dict_set ''access_token'' (JStr (key_or_empty w ''access_token'')) term"

definition places_search_endpoint :: "world \<Rightarrow> wrapper \<Rightarrow> pydict \<Rightarrow> state \<Rightarrow> unit result" where
  "places_search_endpoint W w term st = call_endpoint W w (plain_request PLACES_SEARCH term) st"

definition places_info_endpoint :: "world \<Rightarrow> wrapper \<Rightarrow> pydict \<Rightarrow> state \<Rightarrow> unit result" where
  "places_info_endpoint W w term st =
     (case map_of term ''facebook_id'' of
        None \<Rightarrow> Some (Inl (KeyError ''facebook_id''), st)
      | Some place_id \<Rightarrow>
          call_endpoint W w
            (plain_request (PLACE_INFORMATION (py_str W place_id)) (dict_pop ''facebook_id'' term)) st)"

definition parse_places_details_json_response :: "state \<Rightarrow> exn + pydict list" where
  "parse_places_details_json_response st =
     bindE (response_json st) (\<lambda>rj.
     bindE (py_get rj ''data'' (JList [])) (\<lambda>places.
     bindE (py_iter places) (collect_ids ''facebook_id'')))"

definition facebook_row :: "world \<Rightarrow> string \<Rightarrow> datetime \<Rightarrow> json \<Rightarrow> exn + pydict" where
  "facebook_row W search_term_str now place =
     assign_all
       ([(''QUERY'', Inr (JStr search_term_str)),
         (''API_SOURCE'', Inr (JStr ''facebook'')),
         (''SOURCE_LINK'', py_get place ''link'' dash),
         (''ID'', bindE (py_get place ''id'' dash) (\<lambda>v. Inr (JStr (CHR 0x27 # py_str W v)))),
         (''NAME'', py_get place ''name'' dash),
         (''PHONE'', py_get place ''phone'' dash),
         (''ADDRESS'', py_get place ''single_line_address'' dash),
         (''LATITUDE'', get2 place ''location'' ''latitude'' dash),
         (''LONGITUDE'', get2 place ''location'' ''longitude'' dash)]
        @ category_assignments ''name'' (py_get place ''category_list'' JNull)
        @ [(''WEBSITE'', py_get place ''website'' dash),
           (''PRICE'', price_count place ''price_range''),
           (''REVIEWS_AMOUNT'',
              bindE (py_get place ''rating_count'' dash) (\<lambda>v. Inr (JStr (replace (py_str W v) ''.'' '','')))),
           (''RATING'', py_get place ''overall_star_rating'' dash),
           (''IS_CLOSED'',
              bindE (py_get place ''is_permanently_closed'' dash) (\<lambda>v. Inr (JStr (py_str W v)))),
           (''LIKES_AMOUNT'', get2 place ''engagement'' ''count'' dash),
           (''CHECKINS'', py_get place ''checkins'' dash),
           (''RUN_TIMESTAMP'', Inr (JStr (strftime_run now)))])
       []"

definition parse_places_info_json_response ::
  "world \<Rightarrow> string \<Rightarrow> state \<Rightarrow> (exn + unit) \<times> state" where
  "parse_places_info_json_response W search_term_str st =
     (case response_json st of
        Inl e \<Rightarrow> (Inl e, st)
      | Inr place \<Rightarrow>
          (case facebook_row W search_term_str (utcnow W (clock_reads st)) place of
             Inl e \<Rightarrow> (Inl e, st)
           | Inr ROW \<Rightarrow> (Inr (), st\<lparr>rows := rows st @ [ROW], clock_reads := Suc (clock_reads st)\<rparr>)))"

definition facebook_search_term_str :: "term_dict \<Rightarrow> string" where
  "facebook_search_term_str term =
     join ''|'' (map snd (filter (\<lambda>kv. fst kv \<noteq> ''access_token'') term))"

definition facebook_skips :: "term_dict \<Rightarrow> bool" where
  "facebook_skips term = (\<not> any_field term [''q'', ''latitude'', ''longitude'', ''facebook_id''])"

definition default_limit :: "pydict \<Rightarrow> pydict" where
  "default_limit term = (if truthy_at term ''limit'' then term else dict_set ''limit'' (JInt 100) term)"

fun facebook_search_phase ::
  "world \<Rightarrow> wrapper \<Rightarrow> term_dict list \<Rightarrow> queue \<Rightarrow> state \<Rightarrow> queue result" where
  "facebook_search_phase W w [] places_details_terms st = Some (Inr places_details_terms, st)"
| "facebook_search_phase W w (term # ts) places_details_terms st =
     (if facebook_skips term then facebook_search_phase W w ts places_details_terms st
      else
        (let search_term_str = facebook_search_term_str term;
             term' = dict_set ''type'' (JStr ''place'')
                       (facebook_update_term_credentials w (as_params term))
         in if truthy_at term' ''facebook_id''
            then facebook_search_phase W w ts
                   (queue_extend search_term_str
                      [[(''facebook_id'', case map_of term' ''facebook_id'' of Some v \<Rightarrow> v | None \<Rightarrow> JNull)]]
                      places_details_terms) st
            else (case places_search_endpoint W w
                         (merge_coordinates W ''center'' (default_limit term')) st of
                    None \<Rightarrow> None
                  | Some (Inl e, st') \<Rightarrow> Some (Inl e, st')
                  | Some (Inr u, st') \<Rightarrow>
                      (case parse_places_details_json_response st' of
                         Inl e \<Rightarrow> Some (Inl e, st')
                       | Inr ids \<Rightarrow>
                           facebook_search_phase W w ts
                             (queue_extend search_term_str ids places_details_terms) st'))))"

fun facebook_detail_terms ::
  "world \<Rightarrow> wrapper \<Rightarrow> string \<Rightarrow> pydict list \<Rightarrow> state \<Rightarrow> unit result" where
  "facebook_detail_terms W w search_term_str [] st = Some (Inr (), st)"
| "facebook_detail_terms W w search_term_str (term # ts) st =
     (case places_info_endpoint W w
             (facebook_update_term_credentials w
                (dict_set ''fields'' (JStr (join '','' ID_FIELDS)) term)) st of
        None \<Rightarrow> None
      | Some (Inl e, st') \<Rightarrow> Some (Inl e, st')
      | Some (Inr u, st') \<Rightarrow>
          (case parse_places_info_json_response W search_term_str st' of
             (Inl e, st'') \<Rightarrow> Some (Inl e, st'')
           | (Inr u', st'') \<Rightarrow> facebook_detail_terms W w search_term_str ts st''))"

fun facebook_detail_phase :: "world \<Rightarrow> wrapper \<Rightarrow> queue \<Rightarrow> state \<Rightarrow> unit result" where
  "facebook_detail_phase W w [] st = Some (Inr (), st)"
| "facebook_detail_phase W w ((search_term_str, ts) # q) st =
     (case facebook_detail_terms W w search_term_str ts st of
        None \<Rightarrow> None
      | Some (Inl e, st') \<Rightarrow> Some (Inl e, st')
      | Some (Inr u, st') \<Rightarrow> facebook_detail_phase W w q st')"

definition facebook_run :: "world \<Rightarrow> wrapper \<Rightarrow> state \<Rightarrow> unit result" where
  "facebook_run W w st =
     (case facebook_search_phase W w (terms w) [] st of
        None \<Rightarrow> None
      | Some (Inl e, st') \<Rightarrow> Some (Inl e, st')
      | Some (Inr places_details_terms, st') \<Rightarrow> facebook_detail_phase W w places_details_terms st')"

section \<open>The runner\<close>

text \<open>
  \<^verbatim>\<open>wrapper_class()\<close>: every \<^verbatim>\<open>__init__\<close> parses the keys and then the terms, with the
  default limits. \<open>keys_lines\<close> is the class attribute \<^verbatim>\<open>KEYS_LINES\<close> and \<open>files\<close> are
  the input files, both read when the module is loaded.
\<close>

definition new_wrapper ::
  "world \<Rightarrow> string list \<Rightarrow> string list list list \<Rightarrow> wrapper_class \<Rightarrow> exn + wrapper" where
  "new_wrapper W keys_lines files c =
     bindE (parse_keys keys_lines (API_ALIAS c)) (\<lambda>ks.
     bindE (parse_terms (TERMS_HEADERS c) files) (\<lambda>ts.
       Inr \<lparr> cls = c, keys = ks, terms = ts, errors_limit = 3, timeout = 3,
             term_current_date = strftime_ymd (today W) \<rparr>))"

fun run :: "world \<Rightarrow> wrapper \<Rightarrow> state \<Rightarrow> unit result" where
  "run W w st =
     (case cls w of
        Yelp__ApiWrapper \<Rightarrow> yelp_run W w st
      | Foursquare__ApiWrapper \<Rightarrow> foursquare_run W w st
      | Facebook__ApiWrapper \<Rightarrow> facebook_run W w st)"

text \<open>
  The body of the \<^verbatim>\<open>try\<close> statement of \<^verbatim>\<open>main\<close>. After \<^verbatim>\<open>run\<close> the statistics are
  printed from \<^verbatim>\<open>wrapper._response\<close>, an attribute that exists only once a request has
  been answered.
\<close>

definition try_body :: "world \<Rightarrow> wrapper \<Rightarrow> state \<Rightarrow> unit result" where
  "try_body W w st =
     (if keys w = [] then Some (Inl (KeysParserError ''Keys not set''), st)
      else (case run W w st of
              None \<Rightarrow> None
            | Some (Inl e, st') \<Rightarrow> Some (Inl e, st')
            | Some (Inr u, st') \<Rightarrow>
                (case last_response st' of
                   None \<Rightarrow> Some (Inl AttributeError, st')
                 | Some rj \<Rightarrow> Some (Inr (), st'))))"

text \<open>
  What the two \<^verbatim>\<open>except\<close> clauses print: the message of a \<^verbatim>\<open>KeysParserError\<close>, or the
  line \<^verbatim>\<open>FAILED <class> : <exception>\<close>. The other console output of the program is not
  part of the model.
\<close>

datatype console_line = Key_error_message string | FAILED string exn

fun handler :: "wrapper \<Rightarrow> exn + unit \<Rightarrow> console_line list" where
  "handler w (Inr u) = []"
| "handler w (Inl (KeysParserError m)) = [Key_error_message m]"
| "handler w (Inl e) = [FAILED (class_name (cls w)) e]"

text \<open>
  The loop \<^verbatim>\<open>for wrapper_class in wrapper_classes\<close>. The constructor runs outside the
  \<^verbatim>\<open>try\<close> statement, so an exception of it leaves \<^verbatim>\<open>main\<close>.
\<close>

fun main_loop ::
  "world \<Rightarrow> string list \<Rightarrow> string list list list \<Rightarrow> wrapper_class list \<Rightarrow> state \<Rightarrow> console_line list
     \<Rightarrow> (exn + state \<times> console_line list) option" where
  "main_loop W keys_lines files [] st out = Some (Inr (st, out))"
| "main_loop W keys_lines files (c # cs) st out =
     (case new_wrapper W keys_lines files c of
        Inl e \<Rightarrow> Some (Inl e)
      | Inr w \<Rightarrow>
          (case try_body W w (st\<lparr>last_response := None\<rparr>) of
             None \<Rightarrow> None
           | Some (r, st') \<Rightarrow> main_loop W keys_lines files cs st' (out @ handler w r)))"

definition initial_state :: state where
  "initial_state = \<lparr>sent = [], attempts = 0, rows = [], clock_reads = 0, last_response = None\<rparr>"

definition main ::
  "world \<Rightarrow> string list \<Rightarrow> string list list list \<Rightarrow> wrapper_class list
     \<Rightarrow> (exn + csv_file \<times> console_line list) option" where
  "main W keys_lines files wrapper_classes =
     (case main_loop W keys_lines files wrapper_classes initial_state [] of
        None \<Rightarrow> None
      | Some (Inl e) \<Rightarrow> Some (Inl e)
      | Some (Inr (st, out)) \<Rightarrow> Some (Inr (csv_out (utcnow W (clock_reads st)) (rows st), out)))"

section \<open>The cell of a report, as the specification words it\<close>





section \<open>Pages of a Yelp search\<close>






section \<open>The columns of a record, as documented\<close>













definition category_key :: "nat \<Rightarrow> string" where
  "category_key n = ''CATEGORY_'' @ str_of_nat n"
















section \<open>Traces\<close>

text \<open>
  \<open>extends_by st st' Q R\<close>: between the two states exactly the calls \<open>Q\<close> were made, in
  that order, and exactly the records \<open>R\<close> were appended to the buffer.
\<close>

definition extends_by :: "state \<Rightarrow> state \<Rightarrow> request list \<Rightarrow> pydict list \<Rightarrow> bool" where
  "extends_by st st' Q R \<longleftrightarrow> sent st' = sent st @ Q \<and> rows st' = rows st @ R"


definition detail_call_of :: "world \<Rightarrow> string \<Rightarrow> (string \<Rightarrow> string) \<Rightarrow> string \<times> pydict \<Rightarrow> request \<Rightarrow> bool" where
  "detail_call_of W key url_of it x =
     (case map_of (snd it) key of None \<Rightarrow> False | Some v \<Rightarrow> req_url x = url_of (py_str W v))"

definition record_of_item :: "string \<times> pydict \<Rightarrow> pydict \<Rightarrow> bool" where
  "record_of_item it ROW = (map_of ROW ''QUERY'' = Some (JStr (fst it)))"

definition paired_with ::
  "world \<Rightarrow> string \<Rightarrow> (string \<Rightarrow> string) \<Rightarrow> (string \<times> pydict) list \<Rightarrow> request list \<Rightarrow> pydict list \<Rightarrow> bool" where
  "paired_with W key url_of items D R \<longleftrightarrow>
     length R \<le> length D \<and> length D \<le> length items \<and>
     list_all2 (detail_call_of W key url_of) (take (length D) items) D \<and>
     list_all2 record_of_item (take (length R) items) R"

section \<open>Example inputs\<close>

text \<open>Concrete worlds and states, used where a theorem is applied to an input.\<close>

definition ok_response :: response where
  "ok_response = \<lparr>status_code = 200, resp_headers = [], body_text = []\<rparr>"

definition epoch0 :: datetime where
  "epoch0 = \<lparr>dt_year = 1970, dt_month = 1, dt_day = 1, dt_hour = 0, dt_minute = 0, dt_second = 0\<rparr>"

definition world_of :: "(nat \<Rightarrow> request \<Rightarrow> attempt) \<Rightarrow> world" where
  "world_of net = \<lparr>http_get = net, utcnow = (\<lambda>n. epoch0), fromtimestamp = (\<lambda>i. Some epoch0),
      today = epoch0, container_str = (\<lambda>v. ''[...]'')\<rparr>"

definition request0 :: request where
  "request0 = \<lparr>req_url = ''https://api.yelp.com/v3/businesses/search'', req_params = [],
      req_headers = [], req_timeout = Some 3\<rparr>"


definition wrapper0 :: "wrapper_class \<Rightarrow> term_dict list \<Rightarrow> wrapper" where
  "wrapper0 c ts = \<lparr> cls = c, keys = [(''apikey'', ''abc'')], terms = ts, errors_limit = 3,
      timeout = 3, term_current_date = ''19700101'' \<rparr>"


definition one_business :: json where
  "one_business = JObj [(''businesses'', JList [JObj [(''id'', JStr ''b1'')]])]"








definition venue_reply :: json where
  "venue_reply = JObj [(''response'', JObj [(''venue'', JObj [(''id'', JStr ''v1''), (''name'', JStr ''Cafe'')])])]"



text \<open>
  A network that answers the first request with one business, refuses the next three and
  answers every later one with a venue; two credentials files' lines and one input file of
  two rows.
\<close>

definition flaky_world :: world where
  "flaky_world = world_of (\<lambda>n q. if n = 0 then Replies ok_response one_business
                                   else if n < 4 then Fails ''ConnectionError'' ''refused''
                                   else Replies ok_response venue_reply)"

definition two_keys :: "string list" where
  "two_keys = [''yelp_apikey = abc'', ''foursquare_client_id = id1'', ''foursquare_client_secret = s1'']"

definition two_rows :: "string list list list" where
  "two_rows = [[[''term'', ''location''], [''pizza'', ''Berlin''], [''sushi'', ''Paris'']]]"

definition pizza_sushi :: "term_dict list" where
  "pizza_sushi = [[(''term'', ''pizza''), (''location'', ''Berlin'')],
                  [(''term'', ''sushi''), (''location'', ''Paris'')]]"

definition refused :: exn where
  "refused = RequestEngineError ''Error(ConnectionError). Yelp__ApiWrapper: refused''"

section \<open>Properties\<close>

lemma GET_loop_Replies:
  "net n = Replies r j \<Longrightarrow> GET_loop net limit cname errors n = Some (Inr (r, j), Suc n)"
  by (subst GET_loop.simps) simp

lemma GET_loop_Fails_last:
  "net n = Fails c m \<Longrightarrow> errors + 1 = limit \<Longrightarrow>
   GET_loop net limit cname errors n = Some (Inl (RequestEngineError (error_msg c cname m)), Suc n)"
  by (subst GET_loop.simps) simp

lemma GET_loop_Fails_retry:
  "net n = Fails c m \<Longrightarrow> errors + 1 \<noteq> limit \<Longrightarrow>
   GET_loop net limit cname errors n = GET_loop net limit cname (errors + 1) (Suc n)"
  by (subst GET_loop.simps) simp

text \<open>
  C1. With a limit of 3 errors: when the first two attempts of a \<^verbatim>\<open>GET\<close> call fail and
  the third replies, the call returns that reply and raises nothing; when three attempts in
  a row fail, the call raises \<^verbatim>\<open>RequestEngineError\<close>, whose message holds the class name
  and the message of the third (last) underlying error. Either way exactly three attempts
  have been made when the call ends: nothing is retried after the error is raised.
\<close>

theorem GET_retry_limit_3:
  "(http_get W (attempts st) req = Fails c1 m1 \<and> http_get W (attempts st + 1) req = Fails c2 m2
      \<and> http_get W (attempts st + 2) req = Replies r j
    \<longrightarrow> GET W 3 cname req st =
          Some (Inr (r, j), st\<lparr>sent := sent st @ [req], attempts := attempts st + 3\<rparr>))
 \<and> (http_get W (attempts st) req = Fails c1 m1 \<and> http_get W (attempts st + 1) req = Fails c2 m2
      \<and> http_get W (attempts st + 2) req = Fails c3 m3
    \<longrightarrow> GET W 3 cname req st =
          Some (Inl (RequestEngineError (''Error('' @ c3 @ ''). '' @ cname @ '': '' @ m3)),
                st\<lparr>sent := sent st @ [req], attempts := attempts st + 3\<rparr>))"
  by (simp add: GET_def GET_loop_Fails_retry GET_loop_Fails_last GET_loop_Replies error_msg_def)

theorem GET_retry_limit_3_witness:
  "GET (world_of (\<lambda>n q. if n < 2 then Fails ''Timeout'' ''slow'' else Replies ok_response (JObj [])))
       3 ''Yelp__ApiWrapper'' request0 initial_state
     = Some (Inr (ok_response, JObj []), initial_state\<lparr>sent := [request0], attempts := 3\<rparr>)
   \<and> GET (world_of (\<lambda>n q. if n < 2 then Fails ''Timeout'' ''slow'' else Fails ''ConnectionError'' ''refused''))
       3 ''Yelp__ApiWrapper'' request0 initial_state
     = Some (Inl (RequestEngineError ''Error(ConnectionError). Yelp__ApiWrapper: refused''),
             initial_state\<lparr>sent := [request0], attempts := 3\<rparr>)"
  using GET_retry_limit_3 [of "world_of (\<lambda>n q. if n < 2 then Fails ''Timeout'' ''slow'' else Replies ok_response (JObj []))"
       initial_state request0 "''Timeout''" "''slow''" "''Timeout''" "''slow''" ok_response "JObj []"  "''Yelp__ApiWrapper''"]
   GET_retry_limit_3 [of "world_of (\<lambda>n q. if n < 2 then Fails ''Timeout'' ''slow'' else Fails ''ConnectionError'' ''refused'')"
       initial_state request0 "''Timeout''" "''slow''" "''Timeout''" "''slow''" ok_response "JObj []" "''Yelp__ApiWrapper''" "''ConnectionError''" "''refused''"]
  by (simp add: world_of_def initial_state_def)

subsection \<open>Blank strings\<close>



subsection \<open>The report\<close>





subsection \<open>KeysParser\<close>





subsection \<open>InputTermsParser\<close>














subsection \<open>Yelp: pagination\<close>





















lemma map_of_dict_set: "map_of (dict_set k v d) = (map_of d)(k \<mapsto> v)"
  by (induction d) (auto simp: fun_eq_iff)







subsection \<open>Flattening\<close>





lemma join_dash: "join sep [''-''] = ''-''"
  by simp





































subsection \<open>Foursquare and Facebook: search, then details\<close>

lemma GET_trace:
  "GET W limit c req st = Some (r, st') \<Longrightarrow>
   sent st' = sent st @ [req] \<and> rows st' = rows st \<and> clock_reads st' = clock_reads st"
  by (auto simp: GET_def split: option.splits)

lemma call_endpoint_trace:
  "call_endpoint W w req st = Some (r, st') \<Longrightarrow>
   sent st' = sent st @ [req] \<and> rows st' = rows st \<and> clock_reads st' = clock_reads st"
  by (auto simp: call_endpoint_def split: option.splits sum.splits dest!: GET_trace)

lemma fst_set_dict_set: "fst ` set (dict_set k v d) = insert k (fst ` set d)"
  by (simp add: map_of_dict_set flip: dom_map_of_conv_image_fst)

lemma queue_extend_keys: "fst ` set (queue_extend s items q) = insert s (fst ` set q)"
  by (simp add: queue_extend_def fst_set_dict_set)

lemma assign_all_keeps:
  "assign_all fs ROW = Inr ROW' \<Longrightarrow> k \<notin> fst ` set fs \<Longrightarrow> map_of ROW' k = map_of ROW k"
proof (induction fs ROW rule: assign_all.induct)
  case (1 ROW)
  then show ?case by simp
next
  case (2 k' e fs ROW)
  then show ?case by simp
next
  case (3 k' v fs ROW)
  then show ?case by (simp add: map_of_dict_set)
qed

lemma category_assignments_keys:
  "k \<in> fst ` set (category_assignments f c) \<Longrightarrow> k = ''categories'' \<or> (\<exists>n. k = category_key n)"
  by (auto simp: category_assignments_def category_key_def split: sum.splits if_splits)

lemma assign_all_first:
  assumes "assign_all ((k, Inr v) # fs) [] = Inr ROW" and "k \<notin> fst ` set fs"
  shows "map_of ROW k = Some v"
  using assign_all_keeps [of fs "[(k, v)]" ROW k] assms by simp

lemma foursquare_row_query:
  "foursquare_row W s now venue = Inr ROW \<Longrightarrow> map_of ROW ''QUERY'' = Some (JStr s)"
  unfolding foursquare_row_def append_Cons
  by (erule assign_all_first) (auto simp: category_key_def dest!: category_assignments_keys)

lemma facebook_row_query:
  "facebook_row W s now place = Inr ROW \<Longrightarrow> map_of ROW ''QUERY'' = Some (JStr s)"
  unfolding facebook_row_def append_Cons
  by (erule assign_all_first) (auto simp: category_key_def dest!: category_assignments_keys)

lemma extends_by_refl: "extends_by st st [] []"
  by (simp add: extends_by_def)

lemma extends_by_trans:
  "extends_by st st1 Q1 R1 \<Longrightarrow> extends_by st1 st2 Q2 R2 \<Longrightarrow> extends_by st st2 (Q1 @ Q2) (R1 @ R2)"
  by (simp add: extends_by_def)

lemma call_endpoint_extends:
  "call_endpoint W w req st = Some (r, st') \<Longrightarrow> extends_by st st' [req] []"
  by (simp add: extends_by_def call_endpoint_trace)

lemma venue_details_endpoint_extends:
  assumes "venue_details_endpoint W w tm st = Some (r, st')"
  shows "\<exists>D. extends_by st st' D [] \<and> (\<forall>q \<in> set D. \<exists>i. req_url q = VENUE_DETAILS i)
             \<and> (r = Inr () \<longrightarrow> length D = 1)"
proof (cases "map_of tm ''foursquare_id''")
  case None
  with assms show ?thesis
    by (auto simp: venue_details_endpoint_def extends_by_def intro!: exI [of _ "[]"])
next
  case (Some i)
  with assms have "extends_by st st'
      [plain_request (VENUE_DETAILS (py_str W i)) (dict_pop ''foursquare_id'' tm)] []"
    by (simp add: venue_details_endpoint_def call_endpoint_extends)
  then show ?thesis
    by (intro exI [of _ "[plain_request (VENUE_DETAILS (py_str W i)) (dict_pop ''foursquare_id'' tm)]"])
       (auto simp: plain_request_def)
qed

lemma parse_venue_details_extends:
  assumes "parse_venue_details_json_response W s st = (r, st')"
  shows "\<exists>R. extends_by st st' [] R \<and> (\<forall>ROW \<in> set R. map_of ROW ''QUERY'' = Some (JStr s))
             \<and> length R \<le> 1"
proof (cases r)
  case (Inl e)
  with assms have "st' = st"
    by (auto simp: parse_venue_details_json_response_def split: sum.splits)
  then show ?thesis
    by (intro exI [of _ "[]"]) (simp add: extends_by_def)
next
  case (Inr u)
  with assms obtain venue ROW where
    "foursquare_row W s (utcnow W (clock_reads st)) venue = Inr ROW"
    "st' = st\<lparr>rows := rows st @ [ROW], clock_reads := Suc (clock_reads st)\<rparr>"
    by (auto simp: parse_venue_details_json_response_def split: sum.splits)
  then show ?thesis
    by (intro exI [of _ "[ROW]"]) (simp add: extends_by_def foursquare_row_query)
qed

lemma foursquare_detail_terms_extends:
  "foursquare_detail_terms W w s ts st = Some (r, st') \<Longrightarrow>
   \<exists>D R. extends_by st st' D R \<and> (\<forall>q \<in> set D. \<exists>i. req_url q = VENUE_DETAILS i)
        \<and> (\<forall>ROW \<in> set R. map_of ROW ''QUERY'' = Some (JStr s)) \<and> length R \<le> length D"
proof (induction ts arbitrary: st)
  case Nil
  then show ?case
    by (intro exI [of _ "[]"]) (simp add: extends_by_def)
next
  case (Cons tm ts)
  from Cons.prems obtain r1 st1 where
    ep: "venue_details_endpoint W w (foursquare_update_term_credentials w tm) st = Some (r1, st1)"
    by (auto split: option.splits)
  from venue_details_endpoint_extends [OF ep] obtain D1 where
    D1: "extends_by st st1 D1 []" "\<forall>q \<in> set D1. \<exists>i. req_url q = VENUE_DETAILS i"
        "r1 = Inr () \<longrightarrow> length D1 = 1"
    by blast
  show ?case
  proof (cases r1)
    case (Inl e)
    with Cons.prems ep have "st' = st1" by simp
    with D1 show ?thesis
      by (intro exI [of _ D1] exI [of _ "[]"]) simp
  next
    case (Inr u)
    obtain r2 st2 where p: "parse_venue_details_json_response W s st1 = (r2, st2)"
      by (cases "parse_venue_details_json_response W s st1")
    from parse_venue_details_extends [OF p] obtain R2 where
      R2: "extends_by st1 st2 [] R2" "\<forall>ROW \<in> set R2. map_of ROW ''QUERY'' = Some (JStr s)"
          "length R2 \<le> 1"
      by blast
    have one: "length D1 = 1" using D1(3) Inr by simp
    have e12: "extends_by st st2 D1 R2"
      using extends_by_trans [OF D1(1) R2(1)] by simp
    show ?thesis
    proof (cases r2)
      case (Inl e)
      with Cons.prems ep Inr p have "st' = st2" by simp
      with e12 D1(2) R2(2,3) one show ?thesis
        by (intro exI [of _ D1] exI [of _ R2]) simp
    next
      case (Inr u')
      with Cons.prems ep \<open>r1 = Inr u\<close> p
      have "foursquare_detail_terms W w s ts st2 = Some (r, st')" by simp
      from Cons.IH [OF this] obtain D3 R3 where
        3: "extends_by st2 st' D3 R3" "\<forall>q \<in> set D3. \<exists>i. req_url q = VENUE_DETAILS i"
           "\<forall>ROW \<in> set R3. map_of ROW ''QUERY'' = Some (JStr s)" "length R3 \<le> length D3"
        by blast
      from extends_by_trans [OF e12 3(1)] D1(2) R2(2,3) one 3(2,3,4) show ?thesis
        by (intro exI [of _ "D1 @ D3"] exI [of _ "R2 @ R3"]) auto
    qed
  qed
qed

lemma foursquare_detail_phase_extends:
  "foursquare_detail_phase W w q st = Some (r, st') \<Longrightarrow>
   \<exists>D R. extends_by st st' D R \<and> (\<forall>x \<in> set D. \<exists>i. req_url x = VENUE_DETAILS i)
        \<and> (\<forall>ROW \<in> set R. \<exists>s \<in> fst ` set q. map_of ROW ''QUERY'' = Some (JStr s))
        \<and> length R \<le> length D"
proof (induction q arbitrary: st)
  case Nil
  then show ?case
    by (intro exI [of _ "[]"]) (simp add: extends_by_def)
next
  case (Cons kv q)
  obtain s ts where kv: "kv = (s, ts)" by (cases kv)
  from Cons.prems obtain r1 st1 where
    dt: "foursquare_detail_terms W w s ts st = Some (r1, st1)"
    by (auto simp: kv split: option.splits)
  from foursquare_detail_terms_extends [OF dt] obtain D1 R1 where
    1: "extends_by st st1 D1 R1" "\<forall>x \<in> set D1. \<exists>i. req_url x = VENUE_DETAILS i"
       "\<forall>ROW \<in> set R1. map_of ROW ''QUERY'' = Some (JStr s)" "length R1 \<le> length D1"
    by blast
  show ?case
  proof (cases r1)
    case (Inl e)
    with Cons.prems dt have "st' = st1" by (simp add: kv)
    with 1 show ?thesis
      by (intro exI [of _ D1] exI [of _ R1]) (auto simp: kv)
  next
    case (Inr u)
    with Cons.prems dt have "foursquare_detail_phase W w q st1 = Some (r, st')"
      by (simp add: kv)
    from Cons.IH [OF this] obtain D2 R2 where
      2: "extends_by st1 st' D2 R2" "\<forall>x \<in> set D2. \<exists>i. req_url x = VENUE_DETAILS i"
         "\<forall>ROW \<in> set R2. \<exists>s \<in> fst ` set q. map_of ROW ''QUERY'' = Some (JStr s)"
         "length R2 \<le> length D2"
      by blast
    from extends_by_trans [OF 1(1) 2(1)] 1(2,3,4) 2(2,3,4) show ?thesis
      by (intro exI [of _ "D1 @ D2"] exI [of _ "R1 @ R2"]) (auto simp: kv)
  qed
qed

lemma foursquare_search_phase_extends:
  "foursquare_search_phase W w ts q st = Some (r, st') \<Longrightarrow>
   \<exists>S. extends_by st st' S [] \<and> (\<forall>x \<in> set S. req_url x = VENUE_SEARCH)
      \<and> (\<forall>q'. r = Inr q' \<longrightarrow>
            fst ` set q' \<subseteq> fst ` set q \<union> foursquare_search_term_str ` {t \<in> set ts. \<not> foursquare_skips t})"
proof (induction ts arbitrary: q st)
  case Nil
  then show ?case
    by (intro exI [of _ "[]"]) (auto simp: extends_by_def)
next
  case (Cons tm ts)
  let ?s = "foursquare_search_term_str tm"
  let ?tm = "merge_coordinates W ''ll'' (foursquare_update_term_credentials w (as_params tm))"
  let ?K = "\<lambda>ts. foursquare_search_term_str ` {t \<in> set ts. \<not> foursquare_skips t}"
  have mono: "?K ts \<subseteq> ?K (tm # ts)"
    by auto
  have here: "\<not> foursquare_skips tm \<Longrightarrow> insert ?s (?K ts) \<subseteq> ?K (tm # ts)"
    by auto
  have step: ?case
    if rec: "foursquare_search_phase W w ts q1 st1 = Some (r, st')"
      and pre: "extends_by st st1 S1 []" "\<forall>x \<in> set S1. req_url x = VENUE_SEARCH"
      and keys: "fst ` set q1 \<subseteq> fst ` set q \<union> ?K (tm # ts)"
    for q1 st1 S1
  proof -
    from Cons.IH [OF rec] obtain S where
      S: "extends_by st1 st' S []" "\<forall>x \<in> set S. req_url x = VENUE_SEARCH"
         "\<forall>q'. r = Inr q' \<longrightarrow> fst ` set q' \<subseteq> fst ` set q1 \<union> ?K ts"
      by blast
    have "\<forall>q'. r = Inr q' \<longrightarrow> fst ` set q' \<subseteq> fst ` set q \<union> ?K (tm # ts)"
      using S(3) keys mono by blast
    moreover have "extends_by st st' (S1 @ S) []"
      using extends_by_trans [OF pre(1) S(1)] by simp
    moreover have "\<forall>x \<in> set (S1 @ S). req_url x = VENUE_SEARCH"
      using pre(2) S(2) by auto
    ultimately show ?thesis by blast
  qed
  show ?case
  proof (cases "foursquare_skips tm")
    case True
    with Cons.prems have "foursquare_search_phase W w ts q st = Some (r, st')" by simp
    then show ?thesis
      by (rule step [where ?S1.0 = "[]"]) (auto simp: extends_by_def)
  next
    case False
    show ?thesis
    proof (cases "truthy_at ?tm ''foursquare_id''")
      case True
      with Cons.prems False obtain items where
        "foursquare_search_phase W w ts (queue_extend ?s items q) st = Some (r, st')"
        by (auto simp: Let_def)
      then show ?thesis
      proof (rule step [where ?S1.0 = "[]"])
        show "fst ` set (queue_extend ?s items q) \<subseteq> fst ` set q \<union> ?K (tm # ts)"
          using here [OF False] by (auto simp: queue_extend_keys)
      qed (simp_all add: extends_by_def)
    next
      case noid: False
      with Cons.prems False obtain r1 st1 where
        ep: "venue_search_endpoint W w ?tm st = Some (r1, st1)"
        by (auto simp: Let_def split: option.splits)
      then have e1: "extends_by st st1 [plain_request VENUE_SEARCH ?tm] []"
        by (simp add: venue_search_endpoint_def call_endpoint_extends)
      have u1: "\<forall>x \<in> set [plain_request VENUE_SEARCH ?tm]. req_url x = VENUE_SEARCH"
        by (simp add: plain_request_def)
      show ?thesis
      proof (cases r1)
        case (Inl e)
        with Cons.prems False noid ep have "st' = st1" "r = Inl e"
          by (auto simp: Let_def)
        with e1 u1 show ?thesis
          by (intro exI [of _ "[plain_request VENUE_SEARCH ?tm]"]) simp
      next
        case (Inr u)
        show ?thesis
        proof (cases "parse_venues_search_json_response st1")
          case (Inl e)
          with Cons.prems False noid ep Inr have "st' = st1" "r = Inl e"
            by (auto simp: Let_def)
          with e1 u1 show ?thesis
            by (intro exI [of _ "[plain_request VENUE_SEARCH ?tm]"]) simp
        next
          case ids: (Inr ids)
          with Cons.prems False noid ep Inr
          have "foursquare_search_phase W w ts (queue_extend ?s ids q) st1 = Some (r, st')"
            by (auto simp: Let_def)
          then show ?thesis
            using e1 u1
          proof (rule step)
            show "fst ` set (queue_extend ?s ids q) \<subseteq> fst ` set q \<union> ?K (tm # ts)"
              using here [OF False] by (auto simp: queue_extend_keys)
          qed
        qed
      qed
    qed
  qed
qed

lemma foursquare_run_phases:
  assumes "foursquare_run W w st = Some (r, st')"
  shows "\<exists>S D R. extends_by st st' (S @ D) R
      \<and> (\<forall>x \<in> set S. req_url x = VENUE_SEARCH)
      \<and> (\<forall>x \<in> set D. \<exists>i. req_url x = VENUE_DETAILS i)
      \<and> (D \<noteq> [] \<longrightarrow> (\<exists>queue st1. foursquare_search_phase W w (terms w) [] st = Some (Inr queue, st1)
                            \<and> extends_by st st1 S []))
      \<and> length R \<le> length D
      \<and> (\<forall>ROW \<in> set R. \<exists>t \<in> set (terms w). \<not> foursquare_skips t
             \<and> map_of ROW ''QUERY'' = Some (JStr (foursquare_search_term_str t)))"
proof -
  from assms obtain r1 st1 where
    sp: "foursquare_search_phase W w (terms w) [] st = Some (r1, st1)"
    by (auto simp: foursquare_run_def split: option.splits)
  from foursquare_search_phase_extends [OF sp] obtain S where
    S: "extends_by st st1 S []" "\<forall>x \<in> set S. req_url x = VENUE_SEARCH"
       "\<forall>q'. r1 = Inr q' \<longrightarrow>
            fst ` set q' \<subseteq> foursquare_search_term_str ` {t \<in> set (terms w). \<not> foursquare_skips t}"
    by auto
  show ?thesis
  proof (cases r1)
    case (Inl e)
    with assms sp have "st' = st1" by (simp add: foursquare_run_def)
    with S(1,2) show ?thesis
      by (intro exI [of _ S] exI [of _ "[]"]) simp
  next
    case (Inr queue)
    with assms sp have dp: "foursquare_detail_phase W w queue st1 = Some (r, st')"
      by (simp add: foursquare_run_def)
    from foursquare_detail_phase_extends [OF dp] obtain D R where
      D: "extends_by st1 st' D R" "\<forall>x \<in> set D. \<exists>i. req_url x = VENUE_DETAILS i"
         "\<forall>ROW \<in> set R. \<exists>s \<in> fst ` set queue. map_of ROW ''QUERY'' = Some (JStr s)"
         "length R \<le> length D"
      by blast
    have q: "\<forall>ROW \<in> set R. \<exists>t \<in> set (terms w). \<not> foursquare_skips t
             \<and> map_of ROW ''QUERY'' = Some (JStr (foursquare_search_term_str t))"
    proof
      fix ROW assume "ROW \<in> set R"
      with D(3) obtain s where s: "s \<in> fst ` set queue" "map_of ROW ''QUERY'' = Some (JStr s)"
        by blast
      with S(3) Inr have "s \<in> foursquare_search_term_str ` {t \<in> set (terms w). \<not> foursquare_skips t}"
        by blast
      with s(2) show "\<exists>t \<in> set (terms w). \<not> foursquare_skips t
             \<and> map_of ROW ''QUERY'' = Some (JStr (foursquare_search_term_str t))"
        by auto
    qed
    from extends_by_trans [OF S(1) D(1)] have e: "extends_by st st' (S @ D) R" by simp
    from sp Inr S(1) have fin: "\<exists>queue st1. foursquare_search_phase W w (terms w) [] st = Some (Inr queue, st1)
                            \<and> extends_by st st1 S []"
      by blast
    from e S(2) D(2,4) q fin show ?thesis
      by (intro exI [of _ S] exI [of _ D] exI [of _ R]) simp
  qed
qed

lemma places_info_endpoint_extends:
  assumes "places_info_endpoint W w tm st = Some (r, st')"
  shows "\<exists>D. extends_by st st' D [] \<and> (\<forall>q \<in> set D. \<exists>i. req_url q = PLACE_INFORMATION i)
             \<and> (r = Inr () \<longrightarrow> length D = 1)"
proof (cases "map_of tm ''facebook_id''")
  case None
  with assms show ?thesis
    by (auto simp: places_info_endpoint_def extends_by_def intro!: exI [of _ "[]"])
next
  case (Some i)
  with assms have "extends_by st st'
      [plain_request (PLACE_INFORMATION (py_str W i)) (dict_pop ''facebook_id'' tm)] []"
    by (simp add: places_info_endpoint_def call_endpoint_extends)
  then show ?thesis
    by (intro exI [of _ "[plain_request (PLACE_INFORMATION (py_str W i)) (dict_pop ''facebook_id'' tm)]"])
       (auto simp: plain_request_def)
qed

lemma parse_places_info_extends:
  assumes "parse_places_info_json_response W s st = (r, st')"
  shows "\<exists>R. extends_by st st' [] R \<and> (\<forall>ROW \<in> set R. map_of ROW ''QUERY'' = Some (JStr s))
             \<and> length R \<le> 1"
proof (cases r)
  case (Inl e)
  with assms have "st' = st"
    by (auto simp: parse_places_info_json_response_def split: sum.splits)
  then show ?thesis
    by (intro exI [of _ "[]"]) (simp add: extends_by_def)
next
  case (Inr u)
  with assms obtain place ROW where
    "facebook_row W s (utcnow W (clock_reads st)) place = Inr ROW"
    "st' = st\<lparr>rows := rows st @ [ROW], clock_reads := Suc (clock_reads st)\<rparr>"
    by (auto simp: parse_places_info_json_response_def split: sum.splits)
  then show ?thesis
    by (intro exI [of _ "[ROW]"]) (simp add: extends_by_def facebook_row_query)
qed

lemma facebook_detail_terms_extends:
  "facebook_detail_terms W w s ts st = Some (r, st') \<Longrightarrow>
   \<exists>D R. extends_by st st' D R \<and> (\<forall>q \<in> set D. \<exists>i. req_url q = PLACE_INFORMATION i)
        \<and> (\<forall>ROW \<in> set R. map_of ROW ''QUERY'' = Some (JStr s)) \<and> length R \<le> length D"
proof (induction ts arbitrary: st)
  case Nil
  then show ?case
    by (intro exI [of _ "[]"]) (simp add: extends_by_def)
next
  case (Cons tm ts)
  from Cons.prems obtain r1 st1 where
    ep: "places_info_endpoint W w (facebook_update_term_credentials w (dict_set ''fields'' (JStr (join '','' ID_FIELDS)) tm)) st = Some (r1, st1)"
    by (auto split: option.splits)
  from places_info_endpoint_extends [OF ep] obtain D1 where
    D1: "extends_by st st1 D1 []" "\<forall>q \<in> set D1. \<exists>i. req_url q = PLACE_INFORMATION i"
        "r1 = Inr () \<longrightarrow> length D1 = 1"
    by blast
  show ?case
  proof (cases r1)
    case (Inl e)
    with Cons.prems ep have "st' = st1" by simp
    with D1 show ?thesis
      by (intro exI [of _ D1] exI [of _ "[]"]) simp
  next
    case (Inr u)
    obtain r2 st2 where p: "parse_places_info_json_response W s st1 = (r2, st2)"
      by (cases "parse_places_info_json_response W s st1")
    from parse_places_info_extends [OF p] obtain R2 where
      R2: "extends_by st1 st2 [] R2" "\<forall>ROW \<in> set R2. map_of ROW ''QUERY'' = Some (JStr s)"
          "length R2 \<le> 1"
      by blast
    have one: "length D1 = 1" using D1(3) Inr by simp
    have e12: "extends_by st st2 D1 R2"
      using extends_by_trans [OF D1(1) R2(1)] by simp
    show ?thesis
    proof (cases r2)
      case (Inl e)
      with Cons.prems ep Inr p have "st' = st2" by simp
      with e12 D1(2) R2(2,3) one show ?thesis
        by (intro exI [of _ D1] exI [of _ R2]) simp
    next
      case (Inr u')
      with Cons.prems ep \<open>r1 = Inr u\<close> p
      have "facebook_detail_terms W w s ts st2 = Some (r, st')" by simp
      from Cons.IH [OF this] obtain D3 R3 where
        3: "extends_by st2 st' D3 R3" "\<forall>q \<in> set D3. \<exists>i. req_url q = PLACE_INFORMATION i"
           "\<forall>ROW \<in> set R3. map_of ROW ''QUERY'' = Some (JStr s)" "length R3 \<le> length D3"
        by blast
      from extends_by_trans [OF e12 3(1)] D1(2) R2(2,3) one 3(2,3,4) show ?thesis
        by (intro exI [of _ "D1 @ D3"] exI [of _ "R2 @ R3"]) auto
    qed
  qed
qed

lemma facebook_detail_phase_extends:
  "facebook_detail_phase W w q st = Some (r, st') \<Longrightarrow>
   \<exists>D R. extends_by st st' D R \<and> (\<forall>x \<in> set D. \<exists>i. req_url x = PLACE_INFORMATION i)
        \<and> (\<forall>ROW \<in> set R. \<exists>s \<in> fst ` set q. map_of ROW ''QUERY'' = Some (JStr s))
        \<and> length R \<le> length D"
proof (induction q arbitrary: st)
  case Nil
  then show ?case
    by (intro exI [of _ "[]"]) (simp add: extends_by_def)
next
  case (Cons kv q)
  obtain s ts where kv: "kv = (s, ts)" by (cases kv)
  from Cons.prems obtain r1 st1 where
    dt: "facebook_detail_terms W w s ts st = Some (r1, st1)"
    by (auto simp: kv split: option.splits)
  from facebook_detail_terms_extends [OF dt] obtain D1 R1 where
    1: "extends_by st st1 D1 R1" "\<forall>x \<in> set D1. \<exists>i. req_url x = PLACE_INFORMATION i"
       "\<forall>ROW \<in> set R1. map_of ROW ''QUERY'' = Some (JStr s)" "length R1 \<le> length D1"
    by blast
  show ?case
  proof (cases r1)
    case (Inl e)
    with Cons.prems dt have "st' = st1" by (simp add: kv)
    with 1 show ?thesis
      by (intro exI [of _ D1] exI [of _ R1]) (auto simp: kv)
  next
    case (Inr u)
    with Cons.prems dt have "facebook_detail_phase W w q st1 = Some (r, st')"
      by (simp add: kv)
    from Cons.IH [OF this] obtain D2 R2 where
      2: "extends_by st1 st' D2 R2" "\<forall>x \<in> set D2. \<exists>i. req_url x = PLACE_INFORMATION i"
         "\<forall>ROW \<in> set R2. \<exists>s \<in> fst ` set q. map_of ROW ''QUERY'' = Some (JStr s)"
         "length R2 \<le> length D2"
      by blast
    from extends_by_trans [OF 1(1) 2(1)] 1(2,3,4) 2(2,3,4) show ?thesis
      by (intro exI [of _ "D1 @ D2"] exI [of _ "R1 @ R2"]) (auto simp: kv)
  qed
qed

lemma facebook_search_phase_extends:
  "facebook_search_phase W w ts q st = Some (r, st') \<Longrightarrow>
   \<exists>S. extends_by st st' S [] \<and> (\<forall>x \<in> set S. req_url x = PLACES_SEARCH)
      \<and> (\<forall>q'. r = Inr q' \<longrightarrow>
            fst ` set q' \<subseteq> fst ` set q \<union> facebook_search_term_str ` {t \<in> set ts. \<not> facebook_skips t})"
proof (induction ts arbitrary: q st)
  case Nil
  then show ?case
    by (intro exI [of _ "[]"]) (auto simp: extends_by_def)
next
  case (Cons tm ts)
  let ?s = "facebook_search_term_str tm"
  let ?tm = "dict_set ''type'' (JStr ''place'') (facebook_update_term_credentials w (as_params tm))"
  let ?rq = "merge_coordinates W ''center'' (default_limit ?tm)"
  let ?K = "\<lambda>ts. facebook_search_term_str ` {t \<in> set ts. \<not> facebook_skips t}"
  have mono: "?K ts \<subseteq> ?K (tm # ts)"
    by auto
  have here: "\<not> facebook_skips tm \<Longrightarrow> insert ?s (?K ts) \<subseteq> ?K (tm # ts)"
    by auto
  have step: ?case
    if rec: "facebook_search_phase W w ts q1 st1 = Some (r, st')"
      and pre: "extends_by st st1 S1 []" "\<forall>x \<in> set S1. req_url x = PLACES_SEARCH"
      and keys: "fst ` set q1 \<subseteq> fst ` set q \<union> ?K (tm # ts)"
    for q1 st1 S1
  proof -
    from Cons.IH [OF rec] obtain S where
      S: "extends_by st1 st' S []" "\<forall>x \<in> set S. req_url x = PLACES_SEARCH"
         "\<forall>q'. r = Inr q' \<longrightarrow> fst ` set q' \<subseteq> fst ` set q1 \<union> ?K ts"
      by blast
    have "\<forall>q'. r = Inr q' \<longrightarrow> fst ` set q' \<subseteq> fst ` set q \<union> ?K (tm # ts)"
      using S(3) keys mono by blast
    moreover have "extends_by st st' (S1 @ S) []"
      using extends_by_trans [OF pre(1) S(1)] by simp
    moreover have "\<forall>x \<in> set (S1 @ S). req_url x = PLACES_SEARCH"
      using pre(2) S(2) by auto
    ultimately show ?thesis by blast
  qed
  show ?case
  proof (cases "facebook_skips tm")
    case True
    with Cons.prems have "facebook_search_phase W w ts q st = Some (r, st')" by simp
    then show ?thesis
      by (rule step [where ?S1.0 = "[]"]) (auto simp: extends_by_def)
  next
    case False
    show ?thesis
    proof (cases "truthy_at ?tm ''facebook_id''")
      case True
      with Cons.prems False obtain items where
        "facebook_search_phase W w ts (queue_extend ?s items q) st = Some (r, st')"
        by (auto simp: Let_def)
      then show ?thesis
      proof (rule step [where ?S1.0 = "[]"])
        show "fst ` set (queue_extend ?s items q) \<subseteq> fst ` set q \<union> ?K (tm # ts)"
          using here [OF False] by (auto simp: queue_extend_keys)
      qed (simp_all add: extends_by_def)
    next
      case noid: False
      with Cons.prems False obtain r1 st1 where
        ep: "places_search_endpoint W w ?rq st = Some (r1, st1)"
        by (auto simp: Let_def split: option.splits)
      then have e1: "extends_by st st1 [plain_request PLACES_SEARCH ?rq] []"
        by (simp add: places_search_endpoint_def call_endpoint_extends)
      have u1: "\<forall>x \<in> set [plain_request PLACES_SEARCH ?rq]. req_url x = PLACES_SEARCH"
        by (simp add: plain_request_def)
      show ?thesis
      proof (cases r1)
        case (Inl e)
        with Cons.prems False noid ep have "st' = st1" "r = Inl e"
          by (auto simp: Let_def)
        with e1 u1 show ?thesis
          by (intro exI [of _ "[plain_request PLACES_SEARCH ?rq]"]) simp
      next
        case (Inr u)
        show ?thesis
        proof (cases "parse_places_details_json_response st1")
          case (Inl e)
          with Cons.prems False noid ep Inr have "st' = st1" "r = Inl e"
            by (auto simp: Let_def)
          with e1 u1 show ?thesis
            by (intro exI [of _ "[plain_request PLACES_SEARCH ?rq]"]) simp
        next
          case ids: (Inr ids)
          with Cons.prems False noid ep Inr
          have "facebook_search_phase W w ts (queue_extend ?s ids q) st1 = Some (r, st')"
            by (auto simp: Let_def)
          then show ?thesis
            using e1 u1
          proof (rule step)
            show "fst ` set (queue_extend ?s ids q) \<subseteq> fst ` set q \<union> ?K (tm # ts)"
              using here [OF False] by (auto simp: queue_extend_keys)
          qed
        qed
      qed
    qed
  qed
qed

lemma facebook_run_phases:
  assumes "facebook_run W w st = Some (r, st')"
  shows "\<exists>S D R. extends_by st st' (S @ D) R
      \<and> (\<forall>x \<in> set S. req_url x = PLACES_SEARCH)
      \<and> (\<forall>x \<in> set D. \<exists>i. req_url x = PLACE_INFORMATION i)
      \<and> (D \<noteq> [] \<longrightarrow> (\<exists>queue st1. facebook_search_phase W w (terms w) [] st = Some (Inr queue, st1)
                            \<and> extends_by st st1 S []))
      \<and> length R \<le> length D
      \<and> (\<forall>ROW \<in> set R. \<exists>t \<in> set (terms w). \<not> facebook_skips t
             \<and> map_of ROW ''QUERY'' = Some (JStr (facebook_search_term_str t)))"
proof -
  from assms obtain r1 st1 where
    sp: "facebook_search_phase W w (terms w) [] st = Some (r1, st1)"
    by (auto simp: facebook_run_def split: option.splits)
  from facebook_search_phase_extends [OF sp] obtain S where
    S: "extends_by st st1 S []" "\<forall>x \<in> set S. req_url x = PLACES_SEARCH"
       "\<forall>q'. r1 = Inr q' \<longrightarrow>
            fst ` set q' \<subseteq> facebook_search_term_str ` {t \<in> set (terms w). \<not> facebook_skips t}"
    by auto
  show ?thesis
  proof (cases r1)
    case (Inl e)
    with assms sp have "st' = st1" by (simp add: facebook_run_def)
    with S(1,2) show ?thesis
      by (intro exI [of _ S] exI [of _ "[]"]) simp
  next
    case (Inr queue)
    with assms sp have dp: "facebook_detail_phase W w queue st1 = Some (r, st')"
      by (simp add: facebook_run_def)
    from facebook_detail_phase_extends [OF dp] obtain D R where
      D: "extends_by st1 st' D R" "\<forall>x \<in> set D. \<exists>i. req_url x = PLACE_INFORMATION i"
         "\<forall>ROW \<in> set R. \<exists>s \<in> fst ` set queue. map_of ROW ''QUERY'' = Some (JStr s)"
         "length R \<le> length D"
      by blast
    have q: "\<forall>ROW \<in> set R. \<exists>t \<in> set (terms w). \<not> facebook_skips t
             \<and> map_of ROW ''QUERY'' = Some (JStr (facebook_search_term_str t))"
    proof
      fix ROW assume "ROW \<in> set R"
      with D(3) obtain s where s: "s \<in> fst ` set queue" "map_of ROW ''QUERY'' = Some (JStr s)"
        by blast
      with S(3) Inr have "s \<in> facebook_search_term_str ` {t \<in> set (terms w). \<not> facebook_skips t}"
        by blast
      with s(2) show "\<exists>t \<in> set (terms w). \<not> facebook_skips t
             \<and> map_of ROW ''QUERY'' = Some (JStr (facebook_search_term_str t))"
        by auto
    qed
    from extends_by_trans [OF S(1) D(1)] have e: "extends_by st st' (S @ D) R" by simp
    from sp Inr S(1) have fin: "\<exists>queue st1. facebook_search_phase W w (terms w) [] st = Some (Inr queue, st1)
                            \<and> extends_by st st1 S []"
      by blast
    from e S(2) D(2,4) q fin show ?thesis
      by (intro exI [of _ S] exI [of _ D] exI [of _ R]) simp
  qed
qed



lemma paired_with_Nil: "paired_with W key url_of items [] []"
  by (simp add: paired_with_def)














subsection \<open>The runner: a run that fails\<close>

text \<open>
  With the limit of 3 errors that every wrapper is built with, each call, each phase and each
  run ends: with a result or with an exception, never silently. A run only appends to the
  rows it was given.
\<close>

lemma GET_loop_total:
  "errors < limit \<Longrightarrow> \<exists>r. GET_loop net limit c errors n = Some r"
proof (induction k \<equiv> "nat (limit - errors)" arbitrary: errors n)
  case 0
  then show ?case by simp
next
  case (Suc k)
  show ?case
  proof (cases "net n")
    case (Replies r j)
    then show ?thesis by (simp add: GET_loop_Replies)
  next
    case (Fails ec em)
    show ?thesis
    proof (cases "errors + 1 = limit")
      case True
      with Fails show ?thesis by (simp add: GET_loop_Fails_last)
    next
      case False
      with Suc.prems have "errors + 1 < limit" by simp
      moreover from Suc.hyps(2) have "k = nat (limit - (errors + 1))" by simp
      ultimately have "\<exists>r. GET_loop net limit c (errors + 1) (Suc n) = Some r"
        by (rule Suc.hyps(1) [rotated])
      with Fails False show ?thesis by (simp add: GET_loop_Fails_retry)
    qed
  qed
qed

lemma call_endpoint_total:
  "0 < errors_limit w \<Longrightarrow> \<exists>r st'. call_endpoint W w req st = Some (r, st')"
proof -
  assume "0 < errors_limit w"
  from GET_loop_total [OF this, of "\<lambda>n. http_get W n req" "class_name (cls w)" "attempts st"]
  obtain r n where "GET_loop (\<lambda>n. http_get W n req) (errors_limit w) (class_name (cls w)) 0 (attempts st) = Some (r, n)"
    by auto
  then show ?thesis
    by (cases r) (auto simp: call_endpoint_def GET_def)
qed

lemma yelp_pages_total:
  "0 < errors_limit w \<Longrightarrow> \<exists>r st'. yelp_pages W w tm offset lim bs st = Some (r, st')"
proof (induction W w tm offset lim bs st rule: yelp_pages.induct)
  case (1 W w tm offset lim bs st)
  show ?case
  proof (cases "offset < lim \<and> offset < yelp_api_results_max_limit")
    case False
    then show ?thesis by (subst yelp_pages.simps) auto
  next
    case True
    from call_endpoint_total [OF "1.prems"] obtain r1 st1 where
      ep: "business_search_endpoint W w (dict_set ''offset'' (JInt offset) tm) st = Some (r1, st1)"
      unfolding business_search_endpoint_def by blast
    show ?thesis
    proof (cases r1)
      case (Inl e)
      with True ep show ?thesis by (subst yelp_pages.simps) simp
    next
      case (Inr u)
      show ?thesis
      proof (cases "bindE (response_json st1) (\<lambda>rj. py_get rj ''businesses'' (JList []))")
        case (Inl e)
        with True ep \<open>r1 = Inr u\<close> show ?thesis by (subst yelp_pages.simps) simp
      next
        case b: (Inr b)
        show ?thesis
        proof (cases "truthy b")
          case False
          with True ep \<open>r1 = Inr u\<close> b show ?thesis by (subst yelp_pages.simps) simp
        next
          case t: True
          show ?thesis
          proof (cases "py_iter b")
            case (Inl e)
            with True ep \<open>r1 = Inr u\<close> b t show ?thesis by (subst yelp_pages.simps) simp
          next
            case (Inr page)
            from "1.IH" [OF True ep refl \<open>r1 = Inr u\<close> b t Inr "1.prems"]
            obtain r2 st2 where
              "yelp_pages W w (dict_set ''offset'' (JInt offset) tm) (offset + 50) lim (bs @ page) st1 = Some (r2, st2)"
              by blast
            with True ep \<open>r1 = Inr u\<close> b t Inr show ?thesis by (subst yelp_pages.simps) simp
          qed
        qed
      qed
    qed
  qed
qed


lemma yelp_pages_rows:
  "yelp_pages W w tm offset lim bs st = Some (r, st') \<Longrightarrow> rows st' = rows st"
proof (induction W w tm offset lim bs st rule: yelp_pages.induct)
  case (1 W w tm offset lim bs st)
  show ?case
  proof (cases "offset < lim \<and> offset < yelp_api_results_max_limit")
    case False
    with "1.prems" show ?thesis by (subst (asm) yelp_pages.simps) auto
  next
    case True
    from "1.prems" True obtain r1 st1 where
      ep: "business_search_endpoint W w (dict_set ''offset'' (JInt offset) tm) st = Some (r1, st1)"
      by (subst (asm) yelp_pages.simps) (auto split: option.splits)
    then have r1: "rows st1 = rows st"
      by (simp add: business_search_endpoint_def call_endpoint_trace)
    show ?thesis
    proof (cases "\<exists>u b page. r1 = Inr u
        \<and> bindE (response_json st1) (\<lambda>rj. py_get rj ''businesses'' (JList [])) = Inr b
        \<and> truthy b \<and> py_iter b = Inr page")
      case False
      with "1.prems" True ep have "st' = st1"
        by (subst (asm) yelp_pages.simps) (auto split: sum.splits if_splits)
      with r1 show ?thesis by simp
    next
      case True
      then obtain u b page where h: "r1 = Inr u"
        "bindE (response_json st1) (\<lambda>rj. py_get rj ''businesses'' (JList [])) = Inr b"
        "truthy b" "py_iter b = Inr page"
        by blast
      with "1.prems" \<open>offset < lim \<and> offset < yelp_api_results_max_limit\<close> ep
      have "yelp_pages W w (dict_set ''offset'' (JInt offset) tm) (offset + 50) lim (bs @ page) st1 = Some (r, st')"
        by (subst (asm) yelp_pages.simps) simp
      from "1.IH" [OF \<open>offset < lim \<and> offset < yelp_api_results_max_limit\<close> ep refl h(1,2,3,4) this] r1
      show ?thesis by simp
    qed
  qed
qed

lemma yelp_single_total:
  "0 < errors_limit w \<Longrightarrow> \<exists>r st'. yelp_single W w tm st = Some (r, st')"
proof -
  assume "0 < errors_limit w"
  from call_endpoint_total [OF this] obtain r1 st1 where
    "business_search_endpoint W w tm st = Some (r1, st1)"
    unfolding business_search_endpoint_def by blast
  then show ?thesis
    by (cases r1) (auto simp: yelp_single_def split: sum.splits)
qed

lemma yelp_single_rows:
  "yelp_single W w tm st = Some (r, st') \<Longrightarrow> rows st' = rows st"
  by (auto simp: yelp_single_def business_search_endpoint_def
           split: option.splits sum.splits dest!: call_endpoint_trace)

lemma yelp_rows_grows:
  "yelp_rows W rj n s bs st = (r, st') \<Longrightarrow> \<exists>R. rows st' = rows st @ R"
proof (induction bs arbitrary: st)
  case Nil
  then show ?case by simp
next
  case (Cons b bs)
  show ?case
  proof (cases "yelp_row W rj n s (utcnow W (clock_reads st)) b")
    case (Inl e)
    with Cons.prems show ?thesis by simp
  next
    case (Inr ROW)
    with Cons.prems
    have "yelp_rows W rj n s bs (st\<lparr>rows := rows st @ [ROW], clock_reads := Suc (clock_reads st)\<rparr>) = (r, st')"
      by simp
    from Cons.IH [OF this] show ?thesis by auto
  qed
qed

lemma parse_business_search_grows:
  "parse_business_search_json_response W bs s st = (r, st') \<Longrightarrow> \<exists>R. rows st' = rows st @ R"
  by (auto simp: parse_business_search_json_response_def split: sum.splits if_splits
           dest: yelp_rows_grows)

lemma yelp_term_total:
  assumes "0 < errors_limit w"
  shows "\<exists>r st'. yelp_term W w tm st = Some (r, st') \<and> (\<exists>R. rows st' = rows st @ R)"
proof (cases "\<not> any_field tm [''location'', ''latitude'', ''longitude'']")
  case True
  then show ?thesis by (simp add: yelp_term_def)
next
  case False
  show ?thesis
  proof (cases "term_limit_user_of tm")
    case (Inl e)
    with False show ?thesis by (simp add: yelp_term_def)
  next
    case (Inr lim)
    have "\<exists>r1 st1. yelp_businesses W w tm lim st = Some (r1, st1) \<and> rows st1 = rows st"
    proof (cases "\<exists>l. lim = Some l \<and> l \<noteq> 0 \<and> l > limit_max_per_offset")
      case True
      then obtain l where l: "lim = Some l" "l \<noteq> 0" "l > limit_max_per_offset" by blast
      from yelp_pages_total [OF assms] obtain r1 st1 where
        p: "yelp_pages W w (dict_set ''limit'' (JInt limit_max_per_offset) (as_params tm)) 0 l [] st = Some (r1, st1)"
        by blast
      with l yelp_pages_rows [OF p] show ?thesis
        by (simp add: yelp_businesses_def)
    next
      case False
      from yelp_single_total [OF assms] obtain r1 st1 where
        p: "yelp_single W w (as_params tm) st = Some (r1, st1)"
        by blast
      with False yelp_single_rows [OF p] show ?thesis
        by (cases lim) (auto simp: yelp_businesses_def)
    qed
    then obtain r1 st1 where b: "yelp_businesses W w tm lim st = Some (r1, st1)" "rows st1 = rows st"
      by blast
    show ?thesis
    proof (cases r1)
      case (Inl e)
      with False Inr b show ?thesis by (simp add: yelp_term_def)
    next
      case bs: (Inr bs)
      obtain r2 st2 where p: "parse_business_search_json_response W bs (yelp_search_term_str tm) st1 = (r2, st2)"
        by (cases "parse_business_search_json_response W bs (yelp_search_term_str tm) st1")
      from parse_business_search_grows [OF p] b(2) have "\<exists>R. rows st2 = rows st @ R" by simp
      with False Inr b bs p show ?thesis by (simp add: yelp_term_def)
    qed
  qed
qed

lemma yelp_run_terms_total:
  assumes "0 < errors_limit w"
  shows "\<exists>r st'. yelp_run_terms W w ts st = Some (r, st') \<and> (\<exists>R. rows st' = rows st @ R)"
proof (induction ts arbitrary: st)
  case Nil
  show ?case by simp
next
  case (Cons tm ts)
  from yelp_term_total [OF assms] obtain r1 st1 R1 where
    1: "yelp_term W w tm st = Some (r1, st1)" "rows st1 = rows st @ R1"
    by blast
  show ?case
  proof (cases r1)
    case (Inl e)
    with 1 show ?thesis by simp
  next
    case (Inr u)
    from Cons [of st1] obtain r2 st2 R2 where
      "yelp_run_terms W w ts st1 = Some (r2, st2)" "rows st2 = rows st1 @ R2"
      by blast
    with 1 Inr show ?thesis by simp
  qed
qed


lemma foursquare_search_phase_total:
  assumes "0 < errors_limit w"
  shows "\<exists>r st'. foursquare_search_phase W w ts q st = Some (r, st')"
proof (induction ts arbitrary: q st)
  case Nil
  show ?case by simp
next
  case (Cons tm ts)
  let ?tm = "merge_coordinates W ''ll'' (foursquare_update_term_credentials w (as_params tm))"
  from call_endpoint_total [OF assms] obtain r1 st1 where
    ep: "venue_search_endpoint W w ?tm st = Some (r1, st1)"
    unfolding venue_search_endpoint_def by blast
  show ?case
  proof (cases "foursquare_skips tm \<or> truthy_at ?tm ''foursquare_id''")
    case True
    with Cons show ?thesis by (auto simp: Let_def)
  next
    case False
    show ?thesis
    proof (cases r1)
      case (Inl e)
      with False ep show ?thesis by (simp add: Let_def)
    next
      case (Inr u)
      with False ep Cons show ?thesis
        by (cases "parse_venues_search_json_response st1") (simp_all add: Let_def)
    qed
  qed
qed

lemma foursquare_detail_terms_total:
  assumes "0 < errors_limit w"
  shows "\<exists>r st'. foursquare_detail_terms W w s ts st = Some (r, st')"
proof (induction ts arbitrary: st)
  case Nil
  show ?case by simp
next
  case (Cons tm ts)
  have "\<exists>r1 st1. venue_details_endpoint W w (foursquare_update_term_credentials w tm) st = Some (r1, st1)"
    using call_endpoint_total [OF assms]
    by (auto simp: venue_details_endpoint_def split: option.splits)
  then obtain r1 st1 where
    ep: "venue_details_endpoint W w (foursquare_update_term_credentials w tm) st = Some (r1, st1)"
    by blast
  show ?case
  proof (cases r1)
    case (Inl e)
    with ep show ?thesis by simp
  next
    case (Inr u)
    obtain r2 st2 where p: "parse_venue_details_json_response W s st1 = (r2, st2)"
      by (cases "parse_venue_details_json_response W s st1")
    with ep Inr Cons [of st2] show ?thesis
      by (cases r2) simp_all
  qed
qed

lemma foursquare_detail_phase_total:
  assumes "0 < errors_limit w"
  shows "\<exists>r st'. foursquare_detail_phase W w q st = Some (r, st')"
proof (induction q arbitrary: st)
  case Nil
  show ?case by simp
next
  case (Cons kv q)
  obtain s ts where kv: "kv = (s, ts)" by (cases kv)
  from foursquare_detail_terms_total [OF assms] obtain r1 st1 where
    "foursquare_detail_terms W w s ts st = Some (r1, st1)"
    by blast
  with Cons [of st1] show ?case
    by (cases r1) (simp_all add: kv)
qed

lemma foursquare_run_total:
  assumes "0 < errors_limit w"
  shows "\<exists>r st'. foursquare_run W w st = Some (r, st') \<and> (\<exists>R. rows st' = rows st @ R)"
proof -
  from foursquare_search_phase_total [OF assms] obtain r1 st1 where
    sp: "foursquare_search_phase W w (terms w) [] st = Some (r1, st1)"
    by blast
  have "\<exists>r st'. foursquare_run W w st = Some (r, st')"
  proof (cases r1)
    case (Inl e)
    with sp show ?thesis by (simp add: foursquare_run_def)
  next
    case (Inr q)
    with sp foursquare_detail_phase_total [OF assms, of W q st1] show ?thesis
      by (simp add: foursquare_run_def)
  qed
  then obtain r st' where run: "foursquare_run W w st = Some (r, st')" by blast
  from foursquare_run_phases [OF run] have "\<exists>R. rows st' = rows st @ R"
    by (auto simp: extends_by_def)
  with run show ?thesis by blast
qed

lemma facebook_search_phase_total:
  assumes "0 < errors_limit w"
  shows "\<exists>r st'. facebook_search_phase W w ts q st = Some (r, st')"
proof (induction ts arbitrary: q st)
  case Nil
  show ?case by simp
next
  case (Cons tm ts)
  let ?tm = "dict_set ''type'' (JStr ''place'') (facebook_update_term_credentials w (as_params tm))"
  let ?rq = "merge_coordinates W ''center'' (default_limit ?tm)"
  from call_endpoint_total [OF assms] obtain r1 st1 where
    ep: "places_search_endpoint W w ?rq st = Some (r1, st1)"
    unfolding places_search_endpoint_def by blast
  show ?case
  proof (cases "facebook_skips tm \<or> truthy_at ?tm ''facebook_id''")
    case True
    with Cons show ?thesis by (auto simp: Let_def)
  next
    case False
    show ?thesis
    proof (cases r1)
      case (Inl e)
      with False ep show ?thesis by (simp add: Let_def)
    next
      case (Inr u)
      with False ep Cons show ?thesis
        by (cases "parse_places_details_json_response st1") (simp_all add: Let_def)
    qed
  qed
qed

lemma facebook_detail_terms_total:
  assumes "0 < errors_limit w"
  shows "\<exists>r st'. facebook_detail_terms W w s ts st = Some (r, st')"
proof (induction ts arbitrary: st)
  case Nil
  show ?case by simp
next
  case (Cons tm ts)
  have "\<exists>r1 st1. places_info_endpoint W w (facebook_update_term_credentials w (dict_set ''fields'' (JStr (join '','' ID_FIELDS)) tm)) st = Some (r1, st1)"
    using call_endpoint_total [OF assms]
    by (auto simp: places_info_endpoint_def split: option.splits)
  then obtain r1 st1 where
    ep: "places_info_endpoint W w (facebook_update_term_credentials w (dict_set ''fields'' (JStr (join '','' ID_FIELDS)) tm)) st = Some (r1, st1)"
    by blast
  show ?case
  proof (cases r1)
    case (Inl e)
    with ep show ?thesis by simp
  next
    case (Inr u)
    obtain r2 st2 where p: "parse_places_info_json_response W s st1 = (r2, st2)"
      by (cases "parse_places_info_json_response W s st1")
    with ep Inr Cons [of st2] show ?thesis
      by (cases r2) simp_all
  qed
qed

lemma facebook_detail_phase_total:
  assumes "0 < errors_limit w"
  shows "\<exists>r st'. facebook_detail_phase W w q st = Some (r, st')"
proof (induction q arbitrary: st)
  case Nil
  show ?case by simp
next
  case (Cons kv q)
  obtain s ts where kv: "kv = (s, ts)" by (cases kv)
  from facebook_detail_terms_total [OF assms] obtain r1 st1 where
    "facebook_detail_terms W w s ts st = Some (r1, st1)"
    by blast
  with Cons [of st1] show ?case
    by (cases r1) (simp_all add: kv)
qed

lemma facebook_run_total:
  assumes "0 < errors_limit w"
  shows "\<exists>r st'. facebook_run W w st = Some (r, st') \<and> (\<exists>R. rows st' = rows st @ R)"
proof -
  from facebook_search_phase_total [OF assms] obtain r1 st1 where
    sp: "facebook_search_phase W w (terms w) [] st = Some (r1, st1)"
    by blast
  have "\<exists>r st'. facebook_run W w st = Some (r, st')"
  proof (cases r1)
    case (Inl e)
    with sp show ?thesis by (simp add: facebook_run_def)
  next
    case (Inr q)
    with sp facebook_detail_phase_total [OF assms, of W q st1] show ?thesis
      by (simp add: facebook_run_def)
  qed
  then obtain r st' where run: "facebook_run W w st = Some (r, st')" by blast
  from facebook_run_phases [OF run] have "\<exists>R. rows st' = rows st @ R"
    by (auto simp: extends_by_def)
  with run show ?thesis by blast
qed

lemma run_total:
  assumes "0 < errors_limit w"
  shows "\<exists>r st'. run W w st = Some (r, st') \<and> (\<exists>R. rows st' = rows st @ R)"
  using yelp_run_terms_total [OF assms, of W "terms w" st] foursquare_run_total [OF assms, of W st]
    facebook_run_total [OF assms, of W st]
  by (cases "cls w") (simp_all add: yelp_run_def)

lemma run_grows:
  assumes "0 < errors_limit w" and "run W w st = Some (r, st')"
  shows "\<exists>R. rows st' = rows st @ R"
  using run_total [OF assms(1), of W st] assms(2) by auto

lemma try_body_total:
  assumes "0 < errors_limit w"
  shows "\<exists>r st'. try_body W w st = Some (r, st') \<and> (\<exists>R. rows st' = rows st @ R)"
proof (cases "keys w = []")
  case True
  then show ?thesis by (simp add: try_body_def)
next
  case False
  from run_total [OF assms] obtain r1 st1 R where
    "run W w st = Some (r1, st1)" "rows st1 = rows st @ R"
    by blast
  with False show ?thesis
    by (cases r1; cases "last_response st1") (auto simp: try_body_def simp del: run.simps)
qed

lemma new_wrapper_limit: "new_wrapper W K F c = Inr w \<Longrightarrow> errors_limit w = 3 \<and> cls w = c"
  by (auto simp: new_wrapper_def bindE_def split: sum.splits)

lemma main_loop_total:
  assumes "\<forall>c \<in> set cs. \<exists>w. new_wrapper W K F c = Inr w"
  shows "\<exists>stF outF. main_loop W K F cs st out = Some (Inr (stF, outF))
           \<and> (\<exists>R. rows stF = rows st @ R) \<and> (\<exists>more. outF = out @ more)"
  using assms
proof (induction cs arbitrary: st out)
  case Nil
  show ?case by simp
next
  case (Cons c cs)
  then obtain w where w: "new_wrapper W K F c = Inr w" by auto
  with new_wrapper_limit have "0 < errors_limit w" by fastforce
  from try_body_total [OF this] obtain r1 st1 R1 where
    tb: "try_body W w (st\<lparr>last_response := None\<rparr>) = Some (r1, st1)" "rows st1 = rows st @ R1"
    by fastforce
  from Cons.prems have "\<forall>c \<in> set cs. \<exists>w. new_wrapper W K F c = Inr w" by simp
  from Cons.IH [OF this, of st1 "out @ handler w r1"] obtain stF outF R2 more where
    "main_loop W K F cs st1 (out @ handler w r1) = Some (Inr (stF, outF))"
    "rows stF = rows st1 @ R2" "outF = (out @ handler w r1) @ more"
    by blast
  with w tb show ?case by simp
qed

lemma main_loop_append:
  "main_loop W K F (xs @ ys) st out =
     (case main_loop W K F xs st out of
        None \<Rightarrow> None
      | Some (Inl e) \<Rightarrow> Some (Inl e)
      | Some (Inr (st1, out1)) \<Rightarrow> main_loop W K F ys st1 out1)"
proof (induction xs arbitrary: st out)
  case Nil
  show ?case by simp
next
  case (Cons c xs)
  show ?case
  proof (cases "new_wrapper W K F c")
    case (Inl e)
    then show ?thesis by simp
  next
    case (Inr w)
    then show ?thesis
      by (cases "try_body W w (st\<lparr>last_response := None\<rparr>)") (auto simp: Cons)
  qed
qed

text \<open>
  C6. Take a batch in which the wrappers before \<open>c\<close> have run, and the run of \<open>c\<close> raises an
  exception \<open>e\<close>, whatever it is (the \<^verbatim>\<open>RequestEngineError\<close> of a single term included).
  Then the exception does not leave \<^verbatim>\<open>main\<close>: the handler prints one line for it (the
  \<^verbatim>\<open>FAILED\<close> line with the class name, or the message of a \<^verbatim>\<open>KeysParserError\<close>); the
  rows appended before the failure, by earlier wrappers and by \<open>c\<close> itself, are still the
  front of the buffer; every remaining wrapper, provided its constructor succeeds, is run from
  that buffer; and \<^verbatim>\<open>main\<close> ends by writing the report from the final buffer, which extends
  the rows held at the moment of the failure.
\<close>

theorem main_survives_failed_run:
  assumes pre: "main_loop W K F pre initial_state [] = Some (Inr (st, out))"
      and w: "new_wrapper W K F c = Inr w" "keys w \<noteq> []"
      and fail: "run W w (st\<lparr>last_response := None\<rparr>) = Some (Inl e, st')"
      and rest: "\<forall>c' \<in> set cs. \<exists>w'. new_wrapper W K F c' = Inr w'"
  shows "\<exists>stF outF more R R'.
           main_loop W K F cs st' (out @ handler w (Inl e)) = Some (Inr (stF, outF))
         \<and> main W K F (pre @ c # cs)
             = Some (Inr (csv_out (utcnow W (clock_reads stF)) (rows stF), outF))
         \<and> rows st' = rows st @ R \<and> rows stF = rows st' @ R'
         \<and> outF = out @ handler w (Inl e) @ more
         \<and> handler w (Inl e) =
             (case e of KeysParserError m \<Rightarrow> [Key_error_message m] | _ \<Rightarrow> [FAILED (class_name c) e])"
proof -
  from new_wrapper_limit [OF w(1)] have lim: "0 < errors_limit w" and c: "cls w = c"
    by simp_all
  from run_grows [OF lim fail] obtain R where R: "rows st' = rows st @ R"
    by auto
  have tb: "try_body W w (st\<lparr>last_response := None\<rparr>) = Some (Inl e, st')"
    using w(2) fail by (simp add: try_body_def del: run.simps)
  have step: "main_loop W K F (c # cs) st out = main_loop W K F cs st' (out @ handler w (Inl e))"
    using w(1) tb by simp
  from main_loop_total [OF rest, of st' "out @ handler w (Inl e)"] obtain stF outF R' more where
    fin: "main_loop W K F cs st' (out @ handler w (Inl e)) = Some (Inr (stF, outF))"
      "rows stF = rows st' @ R'" "outF = (out @ handler w (Inl e)) @ more"
    by blast
  have "main_loop W K F (pre @ c # cs) initial_state [] = Some (Inr (stF, outF))"
    by (simp add: main_loop_append pre step fin(1) del: main_loop.simps)
  then have m: "main W K F (pre @ c # cs)
             = Some (Inr (csv_out (utcnow W (clock_reads stF)) (rows stF), outF))"
    by (simp add: main_def)
  have h: "handler w (Inl e) =
             (case e of KeysParserError m \<Rightarrow> [Key_error_message m] | _ \<Rightarrow> [FAILED (class_name c) e])"
    by (cases e) (simp_all add: c)
  from fin m R h show ?thesis
    by (intro exI [of _ stF] exI [of _ outF] exI [of _ more] exI [of _ R] exI [of _ R']) simp
qed

theorem main_survives_failed_run_witness:
  "\<exists>st' stF outF more R R'.
       run flaky_world (wrapper0 Yelp__ApiWrapper pizza_sushi) (initial_state\<lparr>last_response := None\<rparr>)
         = Some (Inl refused, st')
     \<and> map (\<lambda>ROW. map_of ROW ''ID'') (rows st') = [Some (JStr ''b1'')]
     \<and> main_loop flaky_world two_keys two_rows [Foursquare__ApiWrapper] st'
          [FAILED ''Yelp__ApiWrapper'' refused] = Some (Inr (stF, outF))
     \<and> main flaky_world two_keys two_rows [Yelp__ApiWrapper, Foursquare__ApiWrapper]
         = Some (Inr (csv_out (utcnow flaky_world (clock_reads stF)) (rows stF), outF))
     \<and> rows st' = R \<and> rows stF = rows st' @ R'
     \<and> outF = FAILED ''Yelp__ApiWrapper'' refused # more"
proof -
  let ?w = "wrapper0 Yelp__ApiWrapper pizza_sushi"
  have nw: "new_wrapper flaky_world two_keys two_rows Yelp__ApiWrapper = Inr ?w"
    by code_simp
  have k: "keys ?w \<noteq> []"
    by (simp add: wrapper0_def)
  have c: "case run flaky_world ?w (initial_state\<lparr>last_response := None\<rparr>) of
          Some (Inl e, st') \<Rightarrow>
            e = refused \<and> map (\<lambda>ROW. map_of ROW ''ID'') (rows st') = [Some (JStr ''b1'')]
        | _ \<Rightarrow> False"
    by code_simp
  have ev: "\<exists>st'. run flaky_world ?w (initial_state\<lparr>last_response := None\<rparr>) = Some (Inl refused, st')
        \<and> map (\<lambda>ROW. map_of ROW ''ID'') (rows st') = [Some (JStr ''b1'')]"
  proof (cases "run flaky_world ?w (initial_state\<lparr>last_response := None\<rparr>)")
    case None
    with c show ?thesis by simp
  next
    case (Some p)
    obtain a b where p: "p = (a, b)" by (cases p)
    show ?thesis
    proof (cases a)
      case (Inl e)
      with c Some p show ?thesis by simp
    next
      case (Inr u)
      with c Some p show ?thesis by simp
    qed
  qed
  then obtain st' where
    run: "run flaky_world ?w (initial_state\<lparr>last_response := None\<rparr>) = Some (Inl refused, st')"
    and ids: "map (\<lambda>ROW. map_of ROW ''ID'') (rows st') = [Some (JStr ''b1'')]"
    by (elim exE conjE)
  have pre: "main_loop flaky_world two_keys two_rows [] initial_state [] = Some (Inr (initial_state, []))"
    by simp
  have f: "case new_wrapper flaky_world two_keys two_rows Foursquare__ApiWrapper of
             Inr w' \<Rightarrow> True | Inl e \<Rightarrow> False"
    by code_simp
  have rest: "\<forall>c' \<in> set [Foursquare__ApiWrapper]. \<exists>w'. new_wrapper flaky_world two_keys two_rows c' = Inr w'"
    using f by (cases "new_wrapper flaky_world two_keys two_rows Foursquare__ApiWrapper") simp_all
  have h: "handler ?w (Inl refused) = [FAILED ''Yelp__ApiWrapper'' refused]"
    by (simp add: refused_def wrapper0_def)
  from main_survives_failed_run [OF pre nw k run rest] obtain stF outF more R R' where
    fin: "main_loop flaky_world two_keys two_rows [Foursquare__ApiWrapper] st'
            ([] @ handler ?w (Inl refused)) = Some (Inr (stF, outF))"
      "main flaky_world two_keys two_rows ([] @ Yelp__ApiWrapper # [Foursquare__ApiWrapper])
         = Some (Inr (csv_out (utcnow flaky_world (clock_reads stF)) (rows stF), outF))"
      "rows st' = rows initial_state @ R" "rows stF = rows st' @ R'"
      "outF = [] @ handler ?w (Inl refused) @ more"
    by (elim exE conjE)
  from fin run ids h show ?thesis
    by (intro exI [of _ st'] exI [of _ stF] exI [of _ outF] exI [of _ more] exI [of _ R] exI [of _ R'])
       (simp add: initial_state_def del: run.simps main_loop.simps)
qed

subsection \<open>Foursquare: the term that is skipped\<close>

text \<open>
  C3, as the code behaves. The first column of a Foursquare input file is named
  \<^verbatim>\<open>query\<close> by \<^verbatim>\<open>TERMS_HEADERS\<close>, but the test of \<^verbatim>\<open>run\<close> looks for the key \<^verbatim>\<open>q\<close>. So
  an input row whose only cell is the text query \<^verbatim>\<open>pizza\<close> is parsed into the term
  \<^verbatim>\<open>{'query': 'pizza'}\<close>, this term is skipped, and the run over it ends without a request
  and without a record: the state is unchanged. The Facebook wrapper, whose column and test
  both say \<^verbatim>\<open>q\<close>, does not skip its text-query-only term.
\<close>

theorem foursquare_query_only_is_skipped:
  "parse_terms (TERMS_HEADERS Foursquare__ApiWrapper) [[[''query''], [''pizza'']]]
     = Inr [[(''query'', ''pizza'')]]
   \<and> foursquare_skips [(''query'', ''pizza'')]
   \<and> run W (w\<lparr>cls := Foursquare__ApiWrapper, terms := [[(''query'', ''pizza'')]]\<rparr>) st = Some (Inr (), st)
   \<and> facebook_skips [(''q'', ''pizza'')] = False"
proof -
  have p: "parse_terms (TERMS_HEADERS Foursquare__ApiWrapper) [[[''query''], [''pizza'']]]
     = Inr [[(''query'', ''pizza'')]]"
    by code_simp
  have s: "foursquare_skips [(''query'', ''pizza'')]"
    by code_simp
  have f: "facebook_skips [(''q'', ''pizza'')] = False"
    by code_simp
  have r: "run W (w\<lparr>cls := Foursquare__ApiWrapper, terms := [[(''query'', ''pizza'')]]\<rparr>) st = Some (Inr (), st)"
    using s by (simp add: foursquare_run_def)
  from p s r f show ?thesis
    by (intro conjI)
qed

end
